theory Spec2Isabelle
  imports Main "HOL-Library.Char_ord" "HOL-Library.List_Lexorder"
begin

section \<open>Data model of the user controller\<close>

text \<open>
  The controller \<^verbatim>\<open>leveluplife/controllers/user.py\<close> works on the table classes of
  \<^verbatim>\<open>leveluplife.models\<close>. Primary keys are UUIDs; only their equality is used, so
  they are natural numbers here.
\<close>

type_synonym uuid = nat

text \<open>
  Modelled from the spec: the \<^verbatim>\<open>Tribe\<close> enum (declared in
  \<^verbatim>\<open>leveluplife/models/user.py\<close>, which is not among the sources). The four members
  are the ones the controller names; \<open>OTHER_TRIBE\<close> stands for any further member the
  enum may have, and an absent tribe is \<open>None\<close> of \<open>Tribe option\<close>.
\<close>

datatype Tribe = NOSFERATI | VALHARS | SAHARANS | GLIMMERKINS | OTHER_TRIBE nat

text \<open>The dictionary with the five fixed keys that \<^verbatim>\<open>calculate_initial_stats\<close> returns.\<close>

record stats =
  intelligence :: int
  strength :: int
  agility :: int
  wise :: int
  psycho :: int

text \<open>
  Modelled from the spec: the table classes \<^verbatim>\<open>Task\<close>, \<^verbatim>\<open>Rating\<close>,
  \<^verbatim>\<open>Comment\<close> and \<^verbatim>\<open>Reaction\<close> (declared in \<^verbatim>\<open>leveluplife/models/table.py\<close>,
  not among the sources): an id, the owning user and the descriptive fields, which the
  controller only copies. Their views (\<^verbatim>\<open>TaskView(**task.model_dump())\<close> and the
  like) carry the same fields.
\<close>

record owned_row =
  row_id :: uuid
  row_user_id :: uuid
  row_body :: string

type_synonym Task = owned_row
type_synonym Rating = owned_row
type_synonym Comment = owned_row
type_synonym Reaction = owned_row

record owned_view =
  view_id :: uuid
  view_user_id :: uuid
  view_body :: string

type_synonym TaskView = owned_view
type_synonym RatingView = owned_view
type_synonym CommentView = owned_view
type_synonym ReactionView = owned_view

definition model_dump_view :: "owned_row \<Rightarrow> owned_view" where
  "model_dump_view r =
     \<lparr>view_id = row_id r, view_user_id = row_user_id r, view_body = row_body r\<rparr>"

text \<open>
  Modelled from the spec: \<^verbatim>\<open>Item\<close>, \<^verbatim>\<open>UserItemLink\<close>, \<^verbatim>\<open>Quest\<close>,
  \<^verbatim>\<open>UserQuestLink\<close> and \<^verbatim>\<open>User\<close> (same missing modules). The link classes carry
  the attributes of the relationship: \<open>equipped\<close>, and the quest's start, end and
  status. A \<^verbatim>\<open>User\<close> object carries its relationship collections \<^verbatim>\<open>tasks\<close>,
  \<^verbatim>\<open>ratings\<close>, \<^verbatim>\<open>comments\<close> and \<^verbatim>\<open>reactions\<close>, as the ORM loads them.
\<close>

record Item =
  item_id :: uuid
  item_name :: string

record UserItemLink =
  link_user_id :: uuid
  link_item_id :: uuid
  link_equipped :: bool

record Quest =
  quest_id :: uuid
  quest_name :: string

record UserQuestLink =
  qlink_user_id :: uuid
  qlink_quest_id :: uuid
  qlink_quest_start :: int
  qlink_quest_end :: "int option"
  qlink_status :: string

record User =
  user_id :: uuid
  user_username :: string
  user_email :: string
  user_password :: string
  user_tribe :: "Tribe option"
  user_intelligence :: int
  user_strength :: int
  user_agility :: int
  user_wise :: int
  user_psycho :: int
  user_tasks :: "Task list"
  user_ratings :: "Rating list"
  user_comments :: "Comment list"
  user_reactions :: "Reaction list"

text \<open>
  Modelled from the spec: the view classes of \<^verbatim>\<open>leveluplife/models/view.py\<close> (not
  among the sources). An \<^verbatim>\<open>ItemUserView\<close> is the item's fields and \<open>equipped\<close>; a
  \<^verbatim>\<open>QuestUserView\<close> is the quest's fields, the link's start, end and status, and
  the \<open>user_id\<close> that only the single-user path passes; a \<^verbatim>\<open>UserView\<close> is the
  user's fields without the password, and the six collections.
\<close>

record ItemUserView =
  iv_id :: uuid
  iv_name :: string
  iv_equipped :: bool

record QuestUserView =
  qv_id :: uuid
  qv_name :: string
  qv_user_id :: "uuid option"
  qv_quest_start :: int
  qv_quest_end :: "int option"
  qv_status :: string

record UserView =
  uv_id :: uuid
  uv_username :: string
  uv_email :: string
  uv_tribe :: "Tribe option"
  uv_intelligence :: int
  uv_strength :: int
  uv_agility :: int
  uv_wise :: int
  uv_psycho :: int
  uv_items :: "ItemUserView list"
  uv_tasks :: "TaskView list"
  uv_ratings :: "RatingView list"
  uv_comments :: "CommentView list"
  uv_reactions :: "ReactionView list"
  uv_quests :: "QuestUserView list"

text \<open>
  The exceptions of the controller: the six error classes it imports from
  \<^verbatim>\<open>leveluplife.models.error\<close>, the two that \<^verbatim>\<open>Result.one()\<close> of the storage
  layer raises, and Python's own for an index out of range and for an attribute of
  \<^verbatim>\<open>None\<close>.
\<close>

datatype error =
    UserEmailAlreadyExistsError string
  | UserUsernameAlreadyExistsError string
  | UserNotFoundError uuid
  | UserUsernameNotFoundError string
  | UserEmailNotFoundError string
  | ItemLinkToUserNotFoundError uuid
  | NoResultFound
  | MultipleResultsFound
  | IndexError
  | AttributeError

section \<open>Initial statistics\<close>

definition calculate_initial_stats :: "Tribe option \<Rightarrow> stats" where
  "calculate_initial_stats tribe =
     (if tribe = Some NOSFERATI then
        \<lparr>intelligence = 8, strength = 2, agility = 2, wise = 1, psycho = 10\<rparr>
      else if tribe = Some VALHARS then
        \<lparr>intelligence = 1, strength = 10, agility = 6, wise = 6, psycho = 2\<rparr>
      else if tribe = Some SAHARANS then
        \<lparr>intelligence = 9, strength = 2, agility = 3, wise = 10, psycho = 1\<rparr>
      else if tribe = Some GLIMMERKINS then
        \<lparr>intelligence = 10, strength = 2, agility = 2, wise = 7, psycho = 4\<rparr>
      else
        \<lparr>intelligence = 5, strength = 5, agility = 5, wise = 5, psycho = 5\<rparr>)"

section \<open>Building one view from the rows of one user\<close>

text \<open>
  A row of the single-user query:
  \<^verbatim>\<open>select(User, UserItemLink, Item, UserQuestLink, Quest)\<close> with outer joins, so every
  component but the user may be \<^verbatim>\<open>None\<close>. The table objects define no truth value of
  their own, so \<^verbatim>\<open>if item\<close> tests for \<^verbatim>\<open>None\<close>.
\<close>

type_synonym single_row =
  "User \<times> UserItemLink option \<times> Item option \<times> UserQuestLink option \<times> Quest option"

definition item_user_view :: "Item \<Rightarrow> bool \<Rightarrow> ItemUserView" where
  "item_user_view item equipped =
     \<lparr>iv_id = item_id item, iv_name = item_name item, iv_equipped = equipped\<rparr>"

definition quest_user_view :: "Quest \<Rightarrow> uuid option \<Rightarrow> UserQuestLink \<Rightarrow> QuestUserView" where
  "quest_user_view quest uid user_quest_link =
     \<lparr>qv_id = quest_id quest, qv_name = quest_name quest, qv_user_id = uid,
      qv_quest_start = qlink_quest_start user_quest_link,
      qv_quest_end = qlink_quest_end user_quest_link,
      qv_status = qlink_status user_quest_link\<rparr>"

text \<open>
  The comprehension \<^verbatim>\<open>user_items\<close>: one entry for every row whose item is not
  \<^verbatim>\<open>None\<close>; reading \<^verbatim>\<open>user_item_link.equipped\<close> of a missing link raises.
\<close>

fun user_items :: "single_row list \<Rightarrow> error + ItemUserView list" where
  "user_items [] = Inr []"
| "user_items ((_, user_item_link, item, _, _) # rows) =
     (case item of
        None \<Rightarrow> user_items rows
      | Some i \<Rightarrow>
          (case user_item_link of
             None \<Rightarrow> Inl AttributeError
           | Some l \<Rightarrow>
               (case user_items rows of
                  Inl e \<Rightarrow> Inl e
                | Inr vs \<Rightarrow> Inr (item_user_view i (link_equipped l) # vs))))"

text \<open>The comprehension \<^verbatim>\<open>user_quests\<close>; \<open>user\<close> is the user of the first row.\<close>

fun user_quests :: "User \<Rightarrow> single_row list \<Rightarrow> error + QuestUserView list" where
  "user_quests user [] = Inr []"
| "user_quests user ((_, _, _, user_quest_link, quest) # rows) =
     (case quest of
        None \<Rightarrow> user_quests user rows
      | Some q \<Rightarrow>
          (case user_quest_link of
             None \<Rightarrow> Inl AttributeError
           | Some l \<Rightarrow>
               (case user_quests user rows of
                  Inl e \<Rightarrow> Inl e
                | Inr vs \<Rightarrow> Inr (quest_user_view q (Some (user_id user)) l # vs))))"

text \<open>\<^verbatim>\<open>UserView(**user.model_dump(exclude={"password"}), ...)\<close>: every field but the password.\<close>

definition user_view ::
  "User \<Rightarrow> ItemUserView list \<Rightarrow> TaskView list \<Rightarrow> RatingView list \<Rightarrow> CommentView list \<Rightarrow>
   ReactionView list \<Rightarrow> QuestUserView list \<Rightarrow> UserView" where
  "user_view user its tks rts cms rcs qts =
     \<lparr>uv_id = user_id user, uv_username = user_username user, uv_email = user_email user,
      uv_tribe = user_tribe user, uv_intelligence = user_intelligence user,
      uv_strength = user_strength user, uv_agility = user_agility user,
      uv_wise = user_wise user, uv_psycho = user_psycho user,
      uv_items = its, uv_tasks = tks, uv_ratings = rts, uv_comments = cms,
      uv_reactions = rcs, uv_quests = qts\<rparr>"

definition construct_user_view :: "single_row list \<Rightarrow> error + UserView" where
  "construct_user_view user_with_items_and_quests =
     (case user_with_items_and_quests of
        [] \<Rightarrow> Inl IndexError
      | (user, _, _, _, _) # _ \<Rightarrow>
          (case user_items user_with_items_and_quests of
             Inl e \<Rightarrow> Inl e
           | Inr its \<Rightarrow>
               (case user_quests user user_with_items_and_quests of
                  Inl e \<Rightarrow> Inl e
                | Inr qts \<Rightarrow>
                    Inr (user_view user its
                           (map model_dump_view (user_tasks user))
                           (map model_dump_view (user_ratings user))
                           (map model_dump_view (user_comments user))
                           (map model_dump_view (user_reactions user))
                           qts))))"

section \<open>Building the views of many users\<close>

text \<open>
  Python dictionaries keep their keys in insertion order, so a dictionary is a list of
  key-value pairs with distinct keys. \<open>dict_add\<close> is
  \<^verbatim>\<open>if k not in d: d[k] = v\<close>, \<open>dict_modify\<close> is a mutation of the object stored under
  a key, and \<open>dict_values\<close> is \<^verbatim>\<open>list(d.values())\<close>.
\<close>

definition dict_contains :: "('k \<times> 'v) list \<Rightarrow> 'k \<Rightarrow> bool" where
  "dict_contains d k = (k \<in> set (map fst d))"

definition dict_add :: "'k \<Rightarrow> 'v \<Rightarrow> ('k \<times> 'v) list \<Rightarrow> ('k \<times> 'v) list" where
  "dict_add k v d = (if dict_contains d k then d else d @ [(k, v)])"

definition dict_modify :: "'k \<Rightarrow> ('v \<Rightarrow> 'v) \<Rightarrow> ('k \<times> 'v) list \<Rightarrow> ('k \<times> 'v) list" where
  "dict_modify k f d = map (\<lambda>(k', v). if k' = k then (k', f v) else (k', v)) d"

definition dict_values :: "('k \<times> 'v) list \<Rightarrow> 'v list" where
  "dict_values d = map snd d"

text \<open>The value of \<^verbatim>\<open>users[user.id]\<close>: the user and one dictionary for each kind of child.\<close>

record accumulator =
  acc_user :: User
  acc_items :: "((uuid \<times> uuid) \<times> ItemUserView) list"
  acc_tasks :: "(uuid \<times> TaskView) list"
  acc_ratings :: "(uuid \<times> RatingView) list"
  acc_comments :: "(uuid \<times> CommentView) list"
  acc_reactions :: "(uuid \<times> ReactionView) list"
  acc_quests :: "((uuid \<times> uuid) \<times> QuestUserView) list"

type_synonym batch_row =
  "User \<times> UserItemLink option \<times> Item option \<times> Task option \<times> Rating option \<times>
   Comment option \<times> Reaction option \<times> UserQuestLink option \<times> Quest option"

definition new_accumulator :: "User \<Rightarrow> accumulator" where
  "new_accumulator user =
     \<lparr>acc_user = user, acc_items = [], acc_tasks = [], acc_ratings = [], acc_comments = [],
      acc_reactions = [], acc_quests = []\<rparr>"

definition add_item :: "User \<Rightarrow> UserItemLink option \<Rightarrow> Item option \<Rightarrow> accumulator \<Rightarrow> accumulator" where
  "add_item user user_item_link item acc =
     (case (user_item_link, item) of
        (Some l, Some i) \<Rightarrow>
          acc\<lparr>acc_items :=
                dict_add (item_id i, user_id user) (item_user_view i (link_equipped l))
                  (acc_items acc)\<rparr>
      | _ \<Rightarrow> acc)"

definition add_task :: "Task option \<Rightarrow> accumulator \<Rightarrow> accumulator" where
  "add_task task acc =
     (case task of
        Some t \<Rightarrow> acc\<lparr>acc_tasks := dict_add (row_id t) (model_dump_view t) (acc_tasks acc)\<rparr>
      | None \<Rightarrow> acc)"

definition add_rating :: "Rating option \<Rightarrow> accumulator \<Rightarrow> accumulator" where
  "add_rating rating acc =
     (case rating of
        Some t \<Rightarrow> acc\<lparr>acc_ratings := dict_add (row_id t) (model_dump_view t) (acc_ratings acc)\<rparr>
      | None \<Rightarrow> acc)"

definition add_comment :: "Comment option \<Rightarrow> accumulator \<Rightarrow> accumulator" where
  "add_comment comment acc =
     (case comment of
        Some t \<Rightarrow> acc\<lparr>acc_comments := dict_add (row_id t) (model_dump_view t) (acc_comments acc)\<rparr>
      | None \<Rightarrow> acc)"

definition add_reaction :: "Reaction option \<Rightarrow> accumulator \<Rightarrow> accumulator" where
  "add_reaction reaction acc =
     (case reaction of
        Some t \<Rightarrow>
          acc\<lparr>acc_reactions := dict_add (row_id t) (model_dump_view t) (acc_reactions acc)\<rparr>
      | None \<Rightarrow> acc)"

definition add_quest :: "User \<Rightarrow> UserQuestLink option \<Rightarrow> Quest option \<Rightarrow> accumulator \<Rightarrow> accumulator" where
  "add_quest user user_quest_link quest acc =
     (case (user_quest_link, quest) of
        (Some l, Some q) \<Rightarrow>
          acc\<lparr>acc_quests :=
                dict_add (quest_id q, user_id user) (quest_user_view q None l) (acc_quests acc)\<rparr>
      | _ \<Rightarrow> acc)"

text \<open>
  The six steps of the loop body on the accumulator of the row's user, in the order of
  the source.
\<close>

definition add_children :: "batch_row \<Rightarrow> accumulator \<Rightarrow> accumulator" where
  "add_children row acc =
     (case row of
        (user, user_item_link, item, task, rating, comment, reaction, user_quest_link, quest) \<Rightarrow>
          add_quest user user_quest_link quest
            (add_reaction reaction
              (add_comment comment
                (add_rating rating
                  (add_task task
                    (add_item user user_item_link item acc))))))"

text \<open>
  One iteration of the loop: the accumulator of \<^verbatim>\<open>user.id\<close> is created when the id
  is new, and then mutated in place. The key is in the dictionary when it is read, so
  the subscript \<^verbatim>\<open>users[user.id]\<close> cannot raise.
\<close>

definition add_row :: "(uuid \<times> accumulator) list \<Rightarrow> batch_row \<Rightarrow> (uuid \<times> accumulator) list" where
  "add_row users row =
     (let user = fst row;
          users1 = (if \<not> dict_contains users (user_id user)
                    then users @ [(user_id user, new_accumulator user)] else users)
      in dict_modify (user_id user) (add_children row) users1)"

definition accumulator_view :: "accumulator \<Rightarrow> UserView" where
  "accumulator_view user_data =
     user_view (acc_user user_data)
       (dict_values (acc_items user_data))
       (dict_values (acc_tasks user_data))
       (dict_values (acc_ratings user_data))
       (dict_values (acc_comments user_data))
       (dict_values (acc_reactions user_data))
       (dict_values (acc_quests user_data))"

definition construct_user_views :: "batch_row list \<Rightarrow> UserView list" where
  "construct_user_views user_with_items_and_quests =
     map accumulator_view (dict_values (foldl add_row [] user_with_items_and_quests))"

text \<open>
  The order of first occurrence: each element once, at the place where it first stands.
\<close>

fun first_occurrences :: "'a list \<Rightarrow> 'a list" where
  "first_occurrences [] = []"
| "first_occurrences (x # xs) = x # filter (\<lambda>y. y \<noteq> x) (first_occurrences xs)"

subsection \<open>Observations of the input\<close>

text \<open>
  What the results are stated and proved with: the loop of one dictionary as a fold
  over the entries that the rows contribute (\<open>dict_collect\<close>), the rows of one user,
  the id that a row contributes to each collection of its user (none where the loop
  body skips the row), the entry that it contributes, and the loop body folded over
  the rows of one user.
\<close>

definition dict_collect :: "('r \<Rightarrow> ('k \<times> 'v) option) \<Rightarrow> ('k \<times> 'v) list \<Rightarrow> 'r list \<Rightarrow> ('k \<times> 'v) list" where
  "dict_collect entry d rs =
     foldl (\<lambda>d r. case entry r of None \<Rightarrow> d | Some (k, v) \<Rightarrow> dict_add k v d) d rs"

definition person_rows :: "uuid \<Rightarrow> batch_row list \<Rightarrow> batch_row list" where
  "person_rows uid rows = filter (\<lambda>row. user_id (fst row) = uid) rows"

definition row_item_id :: "batch_row \<Rightarrow> uuid option" where
  "row_item_id row =
     (case row of
        (user, user_item_link, item, task, rating, comment, reaction, user_quest_link, quest) \<Rightarrow>
          (case (user_item_link, item) of (Some l, Some i) \<Rightarrow> Some (item_id i) | _ \<Rightarrow> None))"

definition row_task_id :: "batch_row \<Rightarrow> uuid option" where
  "row_task_id row =
     (case row of
        (user, user_item_link, item, task, rating, comment, reaction, user_quest_link, quest) \<Rightarrow>
          map_option row_id task)"

definition row_rating_id :: "batch_row \<Rightarrow> uuid option" where
  "row_rating_id row =
     (case row of
        (user, user_item_link, item, task, rating, comment, reaction, user_quest_link, quest) \<Rightarrow>
          map_option row_id rating)"

definition row_comment_id :: "batch_row \<Rightarrow> uuid option" where
  "row_comment_id row =
     (case row of
        (user, user_item_link, item, task, rating, comment, reaction, user_quest_link, quest) \<Rightarrow>
          map_option row_id comment)"

definition row_reaction_id :: "batch_row \<Rightarrow> uuid option" where
  "row_reaction_id row =
     (case row of
        (user, user_item_link, item, task, rating, comment, reaction, user_quest_link, quest) \<Rightarrow>
          map_option row_id reaction)"

definition row_quest_id :: "batch_row \<Rightarrow> uuid option" where
  "row_quest_id row =
     (case row of
        (user, user_item_link, item, task, rating, comment, reaction, user_quest_link, quest) \<Rightarrow>
          (case (user_quest_link, quest) of (Some l, Some q) \<Rightarrow> Some (quest_id q) | _ \<Rightarrow> None))"

definition item_entry :: "batch_row \<Rightarrow> ((uuid \<times> uuid) \<times> ItemUserView) option" where
  "item_entry row =
     (case row of
        (user, user_item_link, item, task, rating, comment, reaction, user_quest_link, quest) \<Rightarrow>
          (case (user_item_link, item) of
             (Some l, Some i) \<Rightarrow>
               Some ((item_id i, user_id user), item_user_view i (link_equipped l))
           | _ \<Rightarrow> None))"

definition quest_entry :: "batch_row \<Rightarrow> ((uuid \<times> uuid) \<times> QuestUserView) option" where
  "quest_entry row =
     (case row of
        (user, user_item_link, item, task, rating, comment, reaction, user_quest_link, quest) \<Rightarrow>
          (case (user_quest_link, quest) of
             (Some l, Some q) \<Rightarrow> Some ((quest_id q, user_id user), quest_user_view q None l)
           | _ \<Rightarrow> None))"

definition owned_entry :: "owned_row option \<Rightarrow> (uuid \<times> owned_view) option" where
  "owned_entry child = map_option (\<lambda>t. (row_id t, model_dump_view t)) child"

definition task_entry :: "batch_row \<Rightarrow> (uuid \<times> TaskView) option" where
  "task_entry row =
     (case row of
        (user, user_item_link, item, task, rating, comment, reaction, user_quest_link, quest) \<Rightarrow>
          owned_entry task)"

definition rating_entry :: "batch_row \<Rightarrow> (uuid \<times> RatingView) option" where
  "rating_entry row =
     (case row of
        (user, user_item_link, item, task, rating, comment, reaction, user_quest_link, quest) \<Rightarrow>
          owned_entry rating)"

definition comment_entry :: "batch_row \<Rightarrow> (uuid \<times> CommentView) option" where
  "comment_entry row =
     (case row of
        (user, user_item_link, item, task, rating, comment, reaction, user_quest_link, quest) \<Rightarrow>
          owned_entry comment)"

definition reaction_entry :: "batch_row \<Rightarrow> (uuid \<times> ReactionView) option" where
  "reaction_entry row =
     (case row of
        (user, user_item_link, item, task, rating, comment, reaction, user_quest_link, quest) \<Rightarrow>
          owned_entry reaction)"

definition fold_children :: "accumulator \<Rightarrow> batch_row list \<Rightarrow> accumulator" where
  "fold_children acc rows = foldl (\<lambda>a row. add_children row a) acc rows"

subsection \<open>An input for the examples\<close>

text \<open>
  Bob with the items 7 and 8, each joined with the tasks 31 and 32, and ann without
  children, her row standing between bob's.
\<close>

definition example_user :: "uuid \<Rightarrow> string \<Rightarrow> User" where
  "example_user uid name =
     \<lparr>user_id = uid, user_username = name, user_email = name @ ''@example.org'',
      user_password = ''hunter2'', user_tribe = Some VALHARS, user_intelligence = 1,
      user_strength = 10, user_agility = 6, user_wise = 6, user_psycho = 2,
      user_tasks = [], user_ratings = [], user_comments = [], user_reactions = []\<rparr>"

definition example_item :: "uuid \<Rightarrow> Item" where
  "example_item iid = \<lparr>item_id = iid, item_name = ''item''\<rparr>"

definition example_link :: "uuid \<Rightarrow> uuid \<Rightarrow> bool \<Rightarrow> UserItemLink" where
  "example_link uid iid e = \<lparr>link_user_id = uid, link_item_id = iid, link_equipped = e\<rparr>"

definition example_task :: "uuid \<Rightarrow> uuid \<Rightarrow> Task" where
  "example_task tid uid = \<lparr>row_id = tid, row_user_id = uid, row_body = ''task''\<rparr>"

definition example_batch :: "batch_row list" where
  "example_batch =
     [(example_user 2 ''bob'', Some (example_link 2 7 True), Some (example_item 7),
         Some (example_task 31 2), None, None, None, None, None),
      (example_user 2 ''bob'', Some (example_link 2 7 True), Some (example_item 7),
         Some (example_task 32 2), None, None, None, None, None),
      (example_user 1 ''ann'', None, None, None, None, None, None, None, None),
      (example_user 2 ''bob'', Some (example_link 2 8 False), Some (example_item 8),
         Some (example_task 31 2), None, None, None, None, None),
      (example_user 2 ''bob'', Some (example_link 2 8 False), Some (example_item 8),
         Some (example_task 32 2), None, None, None, None, None)]"

section \<open>The storage layer and the operations of the controller\<close>

text \<open>
  The storage layer. A database is its tables, each a list of rows in storage order.
  The queries of the controller are selects over left outer joins: a row of the left
  side is paired with every matching row of the right side, or once with
  \<^verbatim>\<open>None\<close> when there is none, and a join on a missing link matches nothing. SQL
  leaves the order of the rows open where the query does not order them; the model
  takes the order of the tables.
\<close>

record database =
  db_users :: "User list"
  db_user_item_links :: "UserItemLink list"
  db_items :: "Item list"
  db_tasks :: "Task list"
  db_ratings :: "Rating list"
  db_comments :: "Comment list"
  db_reactions :: "Reaction list"
  db_user_quest_links :: "UserQuestLink list"
  db_quests :: "Quest list"

definition outer_join :: "'a list \<Rightarrow> 'a option list" where
  "outer_join matches = (if matches = [] then [None] else map Some matches)"

definition links_of :: "database \<Rightarrow> User \<Rightarrow> UserItemLink option list" where
  "links_of db user =
     outer_join (filter (\<lambda>l. user_id user = link_user_id l) (db_user_item_links db))"

definition items_of :: "database \<Rightarrow> UserItemLink option \<Rightarrow> Item option list" where
  "items_of db user_item_link =
     outer_join
       (case user_item_link of
          None \<Rightarrow> []
        | Some l \<Rightarrow> filter (\<lambda>i. link_item_id l = item_id i) (db_items db))"

definition quest_links_of :: "database \<Rightarrow> User \<Rightarrow> UserQuestLink option list" where
  "quest_links_of db user =
     outer_join (filter (\<lambda>l. user_id user = qlink_user_id l) (db_user_quest_links db))"

definition quests_of :: "database \<Rightarrow> UserQuestLink option \<Rightarrow> Quest option list" where
  "quests_of db user_quest_link =
     outer_join
       (case user_quest_link of
          None \<Rightarrow> []
        | Some l \<Rightarrow> filter (\<lambda>q. qlink_quest_id l = quest_id q) (db_quests db))"

definition owned_of :: "owned_row list \<Rightarrow> User \<Rightarrow> owned_row option list" where
  "owned_of table user = outer_join (filter (\<lambda>t. user_id user = row_user_id t) table)"

text \<open>
  \<^verbatim>\<open>select(User, UserItemLink, Item, UserQuestLink, Quest)\<close> with its four outer joins
  and a \<^verbatim>\<open>where\<close> clause on the user.
\<close>

definition select_user_items_quests :: "database \<Rightarrow> (User \<Rightarrow> bool) \<Rightarrow> single_row list" where
  "select_user_items_quests db cond =
     concat (map (\<lambda>user.
       concat (map (\<lambda>l.
         concat (map (\<lambda>i.
           concat (map (\<lambda>ql.
             map (\<lambda>q. (user, l, i, ql, q)) (quests_of db ql))
           (quest_links_of db user)))
         (items_of db l)))
       (links_of db user)))
     (filter cond (db_users db)))"

text \<open>The select of \<^verbatim>\<open>get_users\<close>, with its eight outer joins.\<close>

definition select_user_children :: "database \<Rightarrow> (User \<Rightarrow> bool) \<Rightarrow> batch_row list" where
  "select_user_children db cond =
     [(user, l, i, t, r, c, re, ql, q).
        user \<leftarrow> filter cond (db_users db),
        l \<leftarrow> links_of db user,
        i \<leftarrow> items_of db l,
        t \<leftarrow> owned_of (db_tasks db) user,
        r \<leftarrow> owned_of (db_ratings db) user,
        c \<leftarrow> owned_of (db_comments db) user,
        re \<leftarrow> owned_of (db_reactions db) user,
        ql \<leftarrow> quest_links_of db user,
        q \<leftarrow> quests_of db ql]"

text \<open>\<^verbatim>\<open>Result.one()\<close> and \<^verbatim>\<open>Result.first()\<close> of the storage layer.\<close>

definition result_one :: "'a list \<Rightarrow> error + 'a" where
  "result_one rows =
     (case rows of [] \<Rightarrow> Inl NoResultFound | [x] \<Rightarrow> Inr x | _ \<Rightarrow> Inl MultipleResultsFound)"

definition result_first :: "'a list \<Rightarrow> 'a option" where
  "result_first rows = (case rows of [] \<Rightarrow> None | x # _ \<Rightarrow> Some x)"

definition get_user_by_id :: "database \<Rightarrow> uuid \<Rightarrow> error + UserView" where
  "get_user_by_id db uid =
     (let user_with_items = select_user_items_quests db (\<lambda>user. user_id user = uid)
      in if user_with_items = [] then Inl (UserNotFoundError uid)
         else construct_user_view user_with_items)"

definition get_user_by_username :: "database \<Rightarrow> string \<Rightarrow> error + UserView" where
  "get_user_by_username db user_username' =
     (let user_with_items =
            select_user_items_quests db (\<lambda>user. user_username user = user_username')
      in if user_with_items = [] then Inl (UserUsernameNotFoundError user_username')
         else construct_user_view user_with_items)"

definition get_user_by_email :: "database \<Rightarrow> string \<Rightarrow> error + UserView" where
  "get_user_by_email db user_email' =
     (let user_with_items = select_user_items_quests db (\<lambda>user. user_email user = user_email')
      in if user_with_items = [] then Inl (UserEmailNotFoundError user_email')
         else construct_user_view user_with_items)"

definition get_user_by_username_with_password :: "database \<Rightarrow> string \<Rightarrow> error + User" where
  "get_user_by_username_with_password db user_username' =
     result_one (filter (\<lambda>user. user_username user = user_username') (db_users db))"

text \<open>
  \<^verbatim>\<open>get_users\<close>: the rows of the select, ordered by username, from which
  \<^verbatim>\<open>offset\<close> rows are skipped and at most \<^verbatim>\<open>limit\<close> rows are kept. Negative
  values are left to the storage backend and have no model here.
\<close>

definition get_users_rows :: "database \<Rightarrow> nat \<Rightarrow> nat \<Rightarrow> batch_row list" where
  "get_users_rows db offset limit =
     take limit (drop offset
       (sort_key (\<lambda>row. user_username (fst row)) (select_user_children db (\<lambda>user. True))))"

definition get_users :: "database \<Rightarrow> nat \<Rightarrow> nat \<Rightarrow> UserView list" where
  "get_users db offset limit = construct_user_views (get_users_rows db offset limit)"

text \<open>
  The operations that write return the database after them and the result; an
  exception turns \<^verbatim>\<open>NoResultFound\<close> into the error of the handler around it.
\<close>

definition equip_item_to_user ::
  "database \<Rightarrow> uuid \<Rightarrow> uuid \<Rightarrow> bool \<Rightarrow> database \<times> (error + UserView)" where
  "equip_item_to_user db uid iid equipped =
     (case result_one (filter (\<lambda>user. user_id user = uid) (db_users db)) of
        Inl e \<Rightarrow> (db, Inl (if e = NoResultFound then UserNotFoundError uid else e))
      | Inr _ \<Rightarrow>
          (case result_one
                  (filter (\<lambda>l. link_user_id l = uid \<and> link_item_id l = iid)
                     (db_user_item_links db)) of
             Inl e \<Rightarrow> (db, Inl (if e = NoResultFound then ItemLinkToUserNotFoundError iid else e))
           | Inr item_link \<Rightarrow>
               (let db' = db\<lparr>db_user_item_links :=
                               map (\<lambda>l. if link_user_id l = uid \<and> link_item_id l = iid
                                         then l\<lparr>link_equipped := equipped\<rparr> else l)
                                 (db_user_item_links db)\<rparr>
                in (db', get_user_by_id db' uid))))"

definition update_user_password ::
  "database \<Rightarrow> uuid \<Rightarrow> string \<Rightarrow> database \<times> (error + UserView)" where
  "update_user_password db uid password =
     (case result_one (filter (\<lambda>user. user_id user = uid) (db_users db)) of
        Inl e \<Rightarrow> (db, Inl (if e = NoResultFound then UserNotFoundError uid else e))
      | Inr db_user \<Rightarrow>
          (let db' = db\<lparr>db_users :=
                          map (\<lambda>user. if user_id user = uid
                                       then user\<lparr>user_password := password\<rparr> else user)
                            (db_users db)\<rparr>
           in (db',
               (case construct_user_view
                       (select_user_items_quests db' (\<lambda>user. user_id user = user_id db_user)) of
                  Inl e \<Rightarrow> Inl (if e = NoResultFound then UserNotFoundError uid else e)
                | Inr v \<Rightarrow> Inr v))))"

text \<open>
  Modelled from the spec: \<^verbatim>\<open>UserCreate\<close> (declared in
  \<^verbatim>\<open>leveluplife/models/user.py\<close>, not among the sources): the fields of a new user
  that the caller gives.
\<close>

record UserCreate =
  uc_username :: string
  uc_email :: string
  uc_password :: string
  uc_tribe :: "Tribe option"

text \<open>
  \<^verbatim>\<open>User(**user_create.model_dump(), **initial_stats)\<close> with the hashed password
  stored; the id is the fresh one the table class generates.
\<close>

definition new_user :: "uuid \<Rightarrow> string \<Rightarrow> UserCreate \<Rightarrow> stats \<Rightarrow> User" where
  "new_user new_id hashing_password user_create initial_stats =
     \<lparr>user_id = new_id, user_username = uc_username user_create,
      user_email = uc_email user_create, user_password = hashing_password,
      user_tribe = uc_tribe user_create,
      user_intelligence = intelligence initial_stats, user_strength = strength initial_stats,
      user_agility = agility initial_stats, user_wise = wise initial_stats,
      user_psycho = psycho initial_stats,
      user_tasks = [], user_ratings = [], user_comments = [], user_reactions = []\<rparr>"

text \<open>
  \<^verbatim>\<open>create_user\<close>. The password hash of \<^verbatim>\<open>leveluplife.auth.hash\<close> and the integrity
  check of the storage layer at commit (\<open>violates\<close>: it raises
  \<^verbatim>\<open>IntegrityError\<close>) are parameters, and so is the id of the new user. The result
  \<open>Inr None\<close> is the end of the handler without a \<^verbatim>\<open>return\<close>.
\<close>

definition create_user ::
  "(string \<Rightarrow> string) \<Rightarrow> (database \<Rightarrow> User \<Rightarrow> bool) \<Rightarrow> uuid \<Rightarrow> database \<Rightarrow> UserCreate \<Rightarrow>
   database \<times> (error + User option)" where
  "create_user get_password_hash violates new_id db user_create =
     (let hashing_password = get_password_hash (uc_password user_create);
          initial_stats = calculate_initial_stats (uc_tribe user_create);
          user = new_user new_id hashing_password user_create initial_stats
      in if \<not> violates db user
         then (db\<lparr>db_users := db_users db @ [user]\<rparr>, Inr (Some user))
         else
           (let existing_user_by_email =
                  result_first (filter (\<lambda>u. user_email u = uc_email user_create) (db_users db))
            in if existing_user_by_email \<noteq> None
               then (db, Inl (UserEmailAlreadyExistsError (uc_email user_create)))
               else
                 (let existing_user_by_username =
                        result_first
                          (filter (\<lambda>u. user_username u = uc_username user_create) (db_users db))
                  in if existing_user_by_username \<noteq> None
                     then (db, Inl (UserUsernameAlreadyExistsError (uc_username user_create)))
                     else (db, Inr None))))"

text \<open>
  Modelled from the spec: the uniqueness constraints of the user table (the table
  declaration is not among the sources): the id, the username and the email are unique.
\<close>

definition unique_violation :: "database \<Rightarrow> User \<Rightarrow> bool" where
  "unique_violation db user =
     (user_id user \<in> set (map user_id (db_users db))
      \<or> user_username user \<in> set (map user_username (db_users db))
      \<or> user_email user \<in> set (map user_email (db_users db)))"

text \<open>
  A database for the examples: bob without children, and ann with the items 7 and 8
  (item 9 is nobody's) and the quests 41 and 42.
\<close>

definition example_quest :: "uuid \<Rightarrow> Quest" where
  "example_quest qid = \<lparr>quest_id = qid, quest_name = ''quest''\<rparr>"

definition example_quest_link :: "uuid \<Rightarrow> uuid \<Rightarrow> UserQuestLink" where
  "example_quest_link uid qid =
     \<lparr>qlink_user_id = uid, qlink_quest_id = qid, qlink_quest_start = 0,
      qlink_quest_end = None, qlink_status = ''active''\<rparr>"

definition example_db :: database where
  "example_db =
     \<lparr>db_users = [example_user 2 ''bob'', example_user 1 ''ann''],
      db_user_item_links = [example_link 1 7 False, example_link 1 8 False],
      db_items = [example_item 7, example_item 8, example_item 9],
      db_tasks = [], db_ratings = [], db_comments = [], db_reactions = [],
      db_user_quest_links = [example_quest_link 1 41, example_quest_link 1 42],
      db_quests = [example_quest 41, example_quest 42]\<rparr>"

subsection \<open>Auxiliary notions of the proofs\<close>

text \<open>The user with the stored password replaced by a value of the caller's choice.\<close>

definition set_password :: "(User \<Rightarrow> string) \<Rightarrow> User \<Rightarrow> User" where
  "set_password f user = user\<lparr>user_password := f user\<rparr>"

text \<open>The same replacement on an entry of the dictionary \<^verbatim>\<open>users\<close>.\<close>

definition hide_password :: "(User \<Rightarrow> string) \<Rightarrow> uuid \<times> accumulator \<Rightarrow> uuid \<times> accumulator" where
  "hide_password f entry = (fst entry, (snd entry)\<lparr>acc_user := set_password f (acc_user (snd entry))\<rparr>)"

text \<open>The rows that the single-user select gives for one user.\<close>

definition user_rows :: "database \<Rightarrow> User \<Rightarrow> single_row list" where
  "user_rows db user =
     concat (map (\<lambda>l.
       concat (map (\<lambda>i.
         concat (map (\<lambda>ql.
           map (\<lambda>q. (user, l, i, ql, q)) (quests_of db ql))
         (quest_links_of db user)))
       (items_of db l)))
     (links_of db user))"

text \<open>
  A row as the joins build it: an item only together with its link, a quest only
  together with its link.
\<close>

definition joined_row :: "single_row \<Rightarrow> bool" where
  "joined_row row =
     (case row of (user, l, i, ql, q) \<Rightarrow> (i = None \<or> l \<noteq> None) \<and> (q = None \<or> ql \<noteq> None))"

text \<open>A stand-in for the password hash, for the examples.\<close>

definition example_hash :: "string \<Rightarrow> string" where
  "example_hash password = ''hash:'' @ password"

definition example_create :: UserCreate where
  "example_create =
     \<lparr>uc_username = ''cat'', uc_email = ''cat@example.org'', uc_password = ''pw'',
      uc_tribe = Some SAHARANS\<rparr>"

text \<open>
  The write of \<open>equip_item_to_user\<close> on one link, the same change on an entry of a
  view, and a row of the select with its link changed.
\<close>

definition set_equipped :: "uuid \<Rightarrow> uuid \<Rightarrow> bool \<Rightarrow> UserItemLink \<Rightarrow> UserItemLink" where
  "set_equipped uid iid equipped l =
     (if link_user_id l = uid \<and> link_item_id l = iid then l\<lparr>link_equipped := equipped\<rparr> else l)"

definition equip_entry :: "uuid \<Rightarrow> bool \<Rightarrow> ItemUserView \<Rightarrow> ItemUserView" where
  "equip_entry iid equipped x = (if iv_id x = iid then x\<lparr>iv_equipped := equipped\<rparr> else x)"

definition relink :: "(UserItemLink \<Rightarrow> UserItemLink) \<Rightarrow> single_row \<Rightarrow> single_row" where
  "relink f row = (case row of (user, l, i, ql, q) \<Rightarrow> (user, map_option f l, i, ql, q))"

text \<open>A row of the user \<open>uid\<close> as the joins build it: the link is the user's, the item is the link's.\<close>

definition linked_row :: "uuid \<Rightarrow> single_row \<Rightarrow> bool" where
  "linked_row uid row =
     (case row of
        (user, l, i, ql, q) \<Rightarrow>
          (case l of
             None \<Rightarrow> True
           | Some l' \<Rightarrow>
               link_user_id l' = uid
               \<and> (case i of None \<Rightarrow> True | Some i' \<Rightarrow> item_id i' = link_item_id l')))"

section \<open>Properties\<close>

subsection \<open>Initial statistics\<close>

text \<open>
  C5: \<open>calculate_initial_stats\<close> is a total function with the table of the spec:
  NOSFERATI gives (8, 2, 2, 1, 10), VALHARS (1, 10, 6, 6, 2), SAHARANS (9, 2, 3, 10, 1),
  GLIMMERKINS (10, 2, 2, 7, 4), an absent tribe and any other member (5, 5, 5, 5, 5), and
  every value returned, for any argument, is non-negative.
\<close>

theorem calculate_initial_stats_table:
  "calculate_initial_stats (Some NOSFERATI) =
     \<lparr>intelligence = 8, strength = 2, agility = 2, wise = 1, psycho = 10\<rparr>
   \<and> calculate_initial_stats (Some VALHARS) =
     \<lparr>intelligence = 1, strength = 10, agility = 6, wise = 6, psycho = 2\<rparr>
   \<and> calculate_initial_stats (Some SAHARANS) =
     \<lparr>intelligence = 9, strength = 2, agility = 3, wise = 10, psycho = 1\<rparr>
   \<and> calculate_initial_stats (Some GLIMMERKINS) =
     \<lparr>intelligence = 10, strength = 2, agility = 2, wise = 7, psycho = 4\<rparr>
   \<and> calculate_initial_stats None =
     \<lparr>intelligence = 5, strength = 5, agility = 5, wise = 5, psycho = 5\<rparr>
   \<and> (\<forall>n. calculate_initial_stats (Some (OTHER_TRIBE n)) =
     \<lparr>intelligence = 5, strength = 5, agility = 5, wise = 5, psycho = 5\<rparr>)
   \<and> (\<forall>t. 0 \<le> intelligence (calculate_initial_stats t)
          \<and> 0 \<le> strength (calculate_initial_stats t)
          \<and> 0 \<le> agility (calculate_initial_stats t)
          \<and> 0 \<le> wise (calculate_initial_stats t)
          \<and> 0 \<le> psycho (calculate_initial_stats t))"
  by (simp add: calculate_initial_stats_def)

subsection \<open>The views of many users: order and uniqueness\<close>

lemma first_occurrences_set: "set (first_occurrences xs) = set xs"
  by (induction xs) auto

lemma first_occurrences_distinct: "distinct (first_occurrences xs)"
  by (induction xs) (auto simp: first_occurrences_set)

lemma first_occurrences_snoc:
  "first_occurrences (xs @ [x]) =
     (if x \<in> set xs then first_occurrences xs else first_occurrences xs @ [x])"
  by (induction xs) auto

lemma first_occurrences_map:
  "inj_on f (set xs) \<Longrightarrow> map f (first_occurrences xs) = first_occurrences (map f xs)"
proof (induction xs)
  case Nil
  then show ?case by simp
next
  case (Cons x xs)
  then have inj: "inj_on f (set xs)" and nx: "\<And>y. y \<in> set xs \<Longrightarrow> (f y = f x) = (y = x)"
    by (auto simp: inj_on_def)
  have "filter (\<lambda>y. y \<noteq> f x) (map f (first_occurrences xs))
        = map f (filter (\<lambda>y. y \<noteq> x) (first_occurrences xs))"
    unfolding filter_map comp_def
    by (rule arg_cong [where f = "map f"], rule filter_cong) (auto simp: first_occurrences_set nx)
  then show ?case using Cons.IH [OF inj] by simp
qed

lemma dict_add_keys:
  "map fst (dict_add k v d) = (if k \<in> set (map fst d) then map fst d else map fst d @ [k])"
  by (simp add: dict_add_def dict_contains_def)

lemma dict_modify_keys: "map fst (dict_modify k f d) = map fst d"
  by (induction d) (auto simp: dict_modify_def)

lemma map_of_dict_modify:
  "map_of (dict_modify k f d) x = (if x = k then map_option f (map_of d k) else map_of d x)"
  by (induction d) (auto simp: dict_modify_def)

lemma dict_collect_snoc:
  "dict_collect entry d (rs @ [r]) =
     (case entry r of None \<Rightarrow> dict_collect entry d rs
      | Some (k, v) \<Rightarrow> dict_add k v (dict_collect entry d rs))"
  by (simp add: dict_collect_def split: option.splits)

lemma dict_collect_keys:
  "map fst (dict_collect entry [] rs) = first_occurrences (map fst (List.map_filter entry rs))"
proof (induction rs rule: rev_induct)
  case Nil
  then show ?case by (simp add: dict_collect_def List.map_filter_simps)
next
  case (snoc r rs)
  show ?case
  proof (cases "entry r")
    case None
    then show ?thesis using snoc by (simp add: dict_collect_snoc map_filter_def)
  next
    case (Some kv)
    obtain k v where kv: "kv = (k, v)" by (cases kv)
    have "set (map fst (dict_collect entry [] rs)) = set (map fst (List.map_filter entry rs))"
      by (simp only: snoc first_occurrences_set)
    then show ?thesis using snoc Some kv
      by (simp add: dict_collect_snoc map_filter_def dict_add_keys first_occurrences_snoc)
  qed
qed

lemma dict_collect_entries:
  "kv \<in> set (dict_collect entry [] rs) \<Longrightarrow> \<exists>r \<in> set rs. entry r = Some kv"
proof (induction rs rule: rev_induct)
  case Nil
  then show ?case by (simp add: dict_collect_def)
next
  case (snoc r rs)
  then show ?case
    by (cases "entry r") (auto simp: dict_collect_snoc dict_add_def split: if_splits)
qed

lemma add_row_keys:
  "map fst (add_row users row) =
     (if user_id (fst row) \<in> set (map fst users) then map fst users
      else map fst users @ [user_id (fst row)])"
  by (simp add: add_row_def Let_def dict_modify_keys dict_contains_def)

lemma users_keys:
  "map fst (foldl add_row [] rows) = first_occurrences (map (\<lambda>row. user_id (fst row)) rows)"
proof (induction rows rule: rev_induct)
  case Nil
  then show ?case by simp
next
  case (snoc row rows)
  have "set (map fst (foldl add_row [] rows)) = set (map (\<lambda>row. user_id (fst row)) rows)"
    by (simp only: snoc first_occurrences_set)
  then show ?case using snoc
    by (simp add: add_row_keys first_occurrences_snoc)
qed

lemma map_of_add_row:
  "map_of (add_row users row) uid =
     (if uid = user_id (fst row)
      then Some (add_children row
             (case map_of users uid of None \<Rightarrow> new_accumulator (fst row) | Some a \<Rightarrow> a))
      else map_of users uid)"
proof (cases "user_id (fst row) \<in> set (map fst users)")
  case True
  then obtain a where "map_of users (user_id (fst row)) = Some a"
    by (metis map_of_eq_None_iff not_Some_eq set_map)
  with True show ?thesis
    by (simp add: add_row_def Let_def map_of_dict_modify dict_contains_def)
next
  case False
  then have "map_of users (user_id (fst row)) = None"
    by (simp add: map_of_eq_None_iff)
  with False show ?thesis
    by (simp add: add_row_def Let_def map_of_dict_modify dict_contains_def map_add_def
          split: option.splits)
qed

lemma users_lookup:
  "map_of (foldl add_row [] rows) uid =
     (case person_rows uid rows of
        [] \<Rightarrow> None
      | row # rest \<Rightarrow> Some (fold_children (new_accumulator (fst row)) (row # rest)))"
proof (induction rows rule: rev_induct)
  case Nil
  then show ?case by (simp add: person_rows_def)
next
  case (snoc row rows)
  show ?case
  proof (cases "uid = user_id (fst row)")
    case True
    have pr: "person_rows (user_id (fst row)) (rows @ [row])
                = person_rows (user_id (fst row)) rows @ [row]"
      by (simp add: person_rows_def)
    show ?thesis using snoc True
      by (cases "person_rows (user_id (fst row)) rows")
         (simp_all add: pr map_of_add_row fold_children_def)
  next
    case False
    then have "person_rows uid (rows @ [row]) = person_rows uid rows"
      by (simp add: person_rows_def)
    then show ?thesis using snoc False by (simp add: map_of_add_row)
  qed
qed

lemma add_item_fields:
  "acc_user (add_item user l i acc) = acc_user acc"
  "acc_tasks (add_item user l i acc) = acc_tasks acc"
  "acc_ratings (add_item user l i acc) = acc_ratings acc"
  "acc_comments (add_item user l i acc) = acc_comments acc"
  "acc_reactions (add_item user l i acc) = acc_reactions acc"
  "acc_quests (add_item user l i acc) = acc_quests acc"
  by (simp_all add: add_item_def split: option.splits)

lemma add_quest_fields:
  "acc_user (add_quest user l q acc) = acc_user acc"
  "acc_items (add_quest user l q acc) = acc_items acc"
  "acc_tasks (add_quest user l q acc) = acc_tasks acc"
  "acc_ratings (add_quest user l q acc) = acc_ratings acc"
  "acc_comments (add_quest user l q acc) = acc_comments acc"
  "acc_reactions (add_quest user l q acc) = acc_reactions acc"
  by (simp_all add: add_quest_def split: option.splits)

lemma add_task_fields:
  "acc_user (add_task t acc) = acc_user acc"
  "acc_items (add_task t acc) = acc_items acc"
  "acc_ratings (add_task t acc) = acc_ratings acc"
  "acc_comments (add_task t acc) = acc_comments acc"
  "acc_reactions (add_task t acc) = acc_reactions acc"
  "acc_quests (add_task t acc) = acc_quests acc"
  by (simp_all add: add_task_def split: option.splits)

lemma add_rating_fields:
  "acc_user (add_rating t acc) = acc_user acc"
  "acc_items (add_rating t acc) = acc_items acc"
  "acc_tasks (add_rating t acc) = acc_tasks acc"
  "acc_comments (add_rating t acc) = acc_comments acc"
  "acc_reactions (add_rating t acc) = acc_reactions acc"
  "acc_quests (add_rating t acc) = acc_quests acc"
  by (simp_all add: add_rating_def split: option.splits)

lemma add_comment_fields:
  "acc_user (add_comment t acc) = acc_user acc"
  "acc_items (add_comment t acc) = acc_items acc"
  "acc_tasks (add_comment t acc) = acc_tasks acc"
  "acc_ratings (add_comment t acc) = acc_ratings acc"
  "acc_reactions (add_comment t acc) = acc_reactions acc"
  "acc_quests (add_comment t acc) = acc_quests acc"
  by (simp_all add: add_comment_def split: option.splits)

lemma add_reaction_fields:
  "acc_user (add_reaction t acc) = acc_user acc"
  "acc_items (add_reaction t acc) = acc_items acc"
  "acc_tasks (add_reaction t acc) = acc_tasks acc"
  "acc_ratings (add_reaction t acc) = acc_ratings acc"
  "acc_comments (add_reaction t acc) = acc_comments acc"
  "acc_quests (add_reaction t acc) = acc_quests acc"
  by (simp_all add: add_reaction_def split: option.splits)

lemmas add_other_fields =
  add_item_fields add_task_fields add_rating_fields add_comment_fields add_reaction_fields
  add_quest_fields

lemma add_children_user: "acc_user (add_children row acc) = acc_user acc"
  by (simp add: add_children_def add_other_fields split: prod.splits)

lemma add_children_items:
  "acc_items (add_children row acc) =
     (case item_entry row of None \<Rightarrow> acc_items acc | Some (k, v) \<Rightarrow> dict_add k v (acc_items acc))"
  by (simp add: add_children_def add_other_fields add_item_def item_entry_def
       split: prod.splits option.splits)

lemma add_children_tasks:
  "acc_tasks (add_children row acc) =
     (case task_entry row of None \<Rightarrow> acc_tasks acc | Some (k, v) \<Rightarrow> dict_add k v (acc_tasks acc))"
  by (simp add: add_children_def add_other_fields add_task_def task_entry_def owned_entry_def
       split: prod.splits option.splits)

lemma add_children_ratings:
  "acc_ratings (add_children row acc) =
     (case rating_entry row of None \<Rightarrow> acc_ratings acc
      | Some (k, v) \<Rightarrow> dict_add k v (acc_ratings acc))"
  by (simp add: add_children_def add_other_fields add_rating_def rating_entry_def
        owned_entry_def split: prod.splits option.splits)

lemma add_children_comments:
  "acc_comments (add_children row acc) =
     (case comment_entry row of None \<Rightarrow> acc_comments acc
      | Some (k, v) \<Rightarrow> dict_add k v (acc_comments acc))"
  by (simp add: add_children_def add_other_fields add_comment_def comment_entry_def
        owned_entry_def split: prod.splits option.splits)

lemma add_children_reactions:
  "acc_reactions (add_children row acc) =
     (case reaction_entry row of None \<Rightarrow> acc_reactions acc
      | Some (k, v) \<Rightarrow> dict_add k v (acc_reactions acc))"
  by (simp add: add_children_def add_other_fields add_reaction_def reaction_entry_def
        owned_entry_def split: prod.splits option.splits)

lemma add_children_quests:
  "acc_quests (add_children row acc) =
     (case quest_entry row of None \<Rightarrow> acc_quests acc
      | Some (k, v) \<Rightarrow> dict_add k v (acc_quests acc))"
  by (simp add: add_children_def add_other_fields add_quest_def quest_entry_def
       split: prod.splits option.splits)

lemma fold_children_user: "acc_user (fold_children acc rows) = acc_user acc"
  by (induction rows arbitrary: acc) (simp_all add: fold_children_def add_children_user)

lemma fold_children_field:
  assumes "\<And>row acc. field (add_children row acc) =
             (case entry row of None \<Rightarrow> field acc | Some (k, v) \<Rightarrow> dict_add k v (field acc))"
  shows "field (fold_children acc rows) = dict_collect entry (field acc) rows"
  by (induction rows arbitrary: acc) (simp_all add: fold_children_def dict_collect_def assms)

lemma person_rows_user: "row \<in> set (person_rows uid rows) \<Longrightarrow> user_id (fst row) = uid"
  by (simp add: person_rows_def)

lemma users_distinct: "distinct (map fst (foldl add_row [] rows))"
  by (simp add: users_keys first_occurrences_distinct)

lemma users_entry:
  assumes "(uid, a) \<in> set (foldl add_row [] rows)"
  shows "\<exists>row rest. person_rows uid rows = row # rest
           \<and> a = fold_children (new_accumulator (fst row)) (row # rest)"
proof -
  have "map_of (foldl add_row [] rows) uid = Some a"
    using assms users_distinct by (simp add: map_of_is_SomeI)
  then show ?thesis
    by (cases "person_rows uid rows") (simp_all add: users_lookup)
qed

lemma users_entry_id:
  assumes "(uid, a) \<in> set (foldl add_row [] rows)"
  shows "uv_id (accumulator_view a) = uid"
proof -
  obtain row rest where pr: "person_rows uid rows = row # rest"
    and a: "a = fold_children (new_accumulator (fst row)) (row # rest)"
    using users_entry [OF assms] by blast
  have "row \<in> set (person_rows uid rows)" by (simp add: pr)
  then have "user_id (fst row) = uid" by (rule person_rows_user)
  then show ?thesis
    by (simp add: a accumulator_view_def user_view_def fold_children_user new_accumulator_def)
qed

lemma views_ids:
  "map uv_id (construct_user_views rows) = first_occurrences (map (\<lambda>row. user_id (fst row)) rows)"
proof -
  have "map uv_id (construct_user_views rows)
          = map (\<lambda>kv. uv_id (accumulator_view (snd kv))) (foldl add_row [] rows)"
    by (simp add: construct_user_views_def dict_values_def comp_def)
  also have "\<dots> = map fst (foldl add_row [] rows)"
    by (rule map_cong) (auto simp: users_entry_id)
  finally show ?thesis by (simp add: users_keys)
qed

lemma views_entry:
  assumes "v \<in> set (construct_user_views rows)"
  shows "\<exists>row rest. person_rows (uv_id v) rows = row # rest
           \<and> v = accumulator_view (fold_children (new_accumulator (fst row)) (row # rest))"
proof -
  from assms obtain uid a where mem: "(uid, a) \<in> set (foldl add_row [] rows)"
    and v: "v = accumulator_view a"
    by (auto simp: construct_user_views_def dict_values_def)
  have uid: "uv_id v = uid" using users_entry_id [OF mem] v by simp
  obtain row rest where pr: "person_rows uid rows = row # rest"
    and a: "a = fold_children (new_accumulator (fst row)) (row # rest)"
    using users_entry [OF mem] by blast
  have "person_rows (uv_id v) rows = row # rest" using pr uid by simp
  moreover have "v = accumulator_view (fold_children (new_accumulator (fst row)) (row # rest))"
    using v a by simp
  ultimately show ?thesis by blast
qed

lemma map_map_filter: "map f (List.map_filter g xs) = List.map_filter (\<lambda>x. map_option f (g x)) xs"
  by (induction xs) (auto simp: map_filter_def)

lemma map_filter_cong_set:
  "(\<And>x. x \<in> set xs \<Longrightarrow> f x = g x) \<Longrightarrow> List.map_filter f xs = List.map_filter g xs"
  by (induction xs) (auto simp: map_filter_def)

lemma collect_ids:
  assumes val: "\<And>r k v. r \<in> set rs \<Longrightarrow> entry r = Some (k, v) \<Longrightarrow> vid v = kid k"
    and inj: "\<And>r r' k v k' v'. r \<in> set rs \<Longrightarrow> r' \<in> set rs \<Longrightarrow> entry r = Some (k, v) \<Longrightarrow>
                entry r' = Some (k', v') \<Longrightarrow> kid k = kid k' \<Longrightarrow> k = k'"
    and ids: "\<And>r. r \<in> set rs \<Longrightarrow> rid r = map_option (\<lambda>kv. kid (fst kv)) (entry r)"
  shows "map vid (dict_values (dict_collect entry [] rs)) = first_occurrences (List.map_filter rid rs)"
proof -
  let ?D = "dict_collect entry [] rs"
  have "map vid (dict_values ?D) = map (\<lambda>kv. vid (snd kv)) ?D"
    by (simp add: dict_values_def comp_def)
  also have "\<dots> = map (\<lambda>kv. kid (fst kv)) ?D"
  proof (rule map_cong [OF refl])
    fix kv assume "kv \<in> set ?D"
    then obtain r where "r \<in> set rs" "entry r = Some kv"
      using dict_collect_entries by fastforce
    then show "vid (snd kv) = kid (fst kv)" using val [of r "fst kv" "snd kv"] by simp
  qed
  also have "\<dots> = map kid (map fst ?D)" by (simp add: comp_def)
  also have "\<dots> = map kid (first_occurrences (map fst (List.map_filter entry rs)))"
    by (simp only: dict_collect_keys)
  also have "\<dots> = first_occurrences (map kid (map fst (List.map_filter entry rs)))"
  proof (rule first_occurrences_map, rule inj_onI)
    fix k k' assume k: "k \<in> set (map fst (List.map_filter entry rs))"
      and k': "k' \<in> set (map fst (List.map_filter entry rs))" and eq: "kid k = kid k'"
    from k obtain r v where "r \<in> set rs" "entry r = Some (k, v)"
      by (auto simp: map_filter_def)
    moreover from k' obtain r' v' where "r' \<in> set rs" "entry r' = Some (k', v')"
      by (auto simp: map_filter_def)
    ultimately show "k = k'" using inj eq by blast
  qed
  also have "map kid (map fst (List.map_filter entry rs))
               = List.map_filter (\<lambda>r. map_option (\<lambda>kv. kid (fst kv)) (entry r)) rs"
    by (simp add: map_map_filter comp_def option.map_comp)
  also have "\<dots> = List.map_filter rid rs"
    by (rule map_filter_cong_set) (simp add: ids)
  finally show ?thesis .
qed

lemma fold_items:
  "acc_items (fold_children (new_accumulator u) rs) = dict_collect item_entry [] rs"
  using fold_children_field [where field = acc_items and entry = item_entry, OF add_children_items]
  by (simp add: new_accumulator_def)

lemma fold_tasks:
  "acc_tasks (fold_children (new_accumulator u) rs) = dict_collect task_entry [] rs"
  using fold_children_field [where field = acc_tasks and entry = task_entry, OF add_children_tasks]
  by (simp add: new_accumulator_def)

lemma fold_ratings:
  "acc_ratings (fold_children (new_accumulator u) rs) = dict_collect rating_entry [] rs"
  using fold_children_field [where field = acc_ratings and entry = rating_entry,
      OF add_children_ratings]
  by (simp add: new_accumulator_def)

lemma fold_comments:
  "acc_comments (fold_children (new_accumulator u) rs) = dict_collect comment_entry [] rs"
  using fold_children_field [where field = acc_comments and entry = comment_entry,
      OF add_children_comments]
  by (simp add: new_accumulator_def)

lemma fold_reactions:
  "acc_reactions (fold_children (new_accumulator u) rs) = dict_collect reaction_entry [] rs"
  using fold_children_field [where field = acc_reactions and entry = reaction_entry,
      OF add_children_reactions]
  by (simp add: new_accumulator_def)

lemma fold_quests:
  "acc_quests (fold_children (new_accumulator u) rs) = dict_collect quest_entry [] rs"
  using fold_children_field [where field = acc_quests and entry = quest_entry,
      OF add_children_quests]
  by (simp add: new_accumulator_def)

lemma item_entry_key: "item_entry r = Some (k, v) \<Longrightarrow> snd k = user_id (fst r)"
  by (auto simp: item_entry_def split: prod.splits option.splits)

lemma quest_entry_key: "quest_entry r = Some (k, v) \<Longrightarrow> snd k = user_id (fst r)"
  by (auto simp: quest_entry_def split: prod.splits option.splits)

lemma item_ids_collect:
  assumes "\<And>r. r \<in> set rs \<Longrightarrow> user_id (fst r) = uid"
  shows "map iv_id (dict_values (dict_collect item_entry [] rs))
           = first_occurrences (List.map_filter row_item_id rs)"
proof (rule collect_ids [where kid = fst])
  show "\<And>r k v. r \<in> set rs \<Longrightarrow> item_entry r = Some (k, v) \<Longrightarrow> iv_id v = fst k"
    by (auto simp: item_entry_def item_user_view_def split: prod.splits option.splits)
  show "\<And>r r' k v k' v'. r \<in> set rs \<Longrightarrow> r' \<in> set rs \<Longrightarrow> item_entry r = Some (k, v) \<Longrightarrow>
          item_entry r' = Some (k', v') \<Longrightarrow> fst k = fst k' \<Longrightarrow> k = k'"
    using assms item_entry_key by (metis prod.expand)
  show "\<And>r. r \<in> set rs \<Longrightarrow> row_item_id r = map_option (\<lambda>kv. fst (fst kv)) (item_entry r)"
    by (auto simp: item_entry_def row_item_id_def split: prod.splits option.splits)
qed

lemma quest_ids_collect:
  assumes "\<And>r. r \<in> set rs \<Longrightarrow> user_id (fst r) = uid"
  shows "map qv_id (dict_values (dict_collect quest_entry [] rs))
           = first_occurrences (List.map_filter row_quest_id rs)"
proof (rule collect_ids [where kid = fst])
  show "\<And>r k v. r \<in> set rs \<Longrightarrow> quest_entry r = Some (k, v) \<Longrightarrow> qv_id v = fst k"
    by (auto simp: quest_entry_def quest_user_view_def split: prod.splits option.splits)
  show "\<And>r r' k v k' v'. r \<in> set rs \<Longrightarrow> r' \<in> set rs \<Longrightarrow> quest_entry r = Some (k, v) \<Longrightarrow>
          quest_entry r' = Some (k', v') \<Longrightarrow> fst k = fst k' \<Longrightarrow> k = k'"
    using assms quest_entry_key by (metis prod.expand)
  show "\<And>r. r \<in> set rs \<Longrightarrow> row_quest_id r = map_option (\<lambda>kv. fst (fst kv)) (quest_entry r)"
    by (auto simp: quest_entry_def row_quest_id_def split: prod.splits option.splits)
qed

lemma owned_ids_collect:
  assumes "\<And>r. entry r = owned_entry (child r)" and "\<And>r. rid r = map_option row_id (child r)"
  shows "map view_id (dict_values (dict_collect entry [] rs))
           = first_occurrences (List.map_filter rid rs)"
proof (rule collect_ids [where kid = "\<lambda>k. k"])
  show "\<And>r k v. r \<in> set rs \<Longrightarrow> entry r = Some (k, v) \<Longrightarrow> view_id v = k"
    by (auto simp: assms owned_entry_def model_dump_view_def)
  show "\<And>r r' k v k' v'. r \<in> set rs \<Longrightarrow> r' \<in> set rs \<Longrightarrow> entry r = Some (k, v) \<Longrightarrow>
          entry r' = Some (k', v') \<Longrightarrow> k = k' \<Longrightarrow> k = k'"
    by simp
  show "\<And>r. r \<in> set rs \<Longrightarrow> rid r = map_option (\<lambda>kv. fst kv) (entry r)"
    by (simp add: assms owned_entry_def option.map_comp comp_def)
qed

lemma task_ids_collect:
  "map view_id (dict_values (dict_collect task_entry [] rs))
     = first_occurrences (List.map_filter row_task_id rs)"
  by (rule owned_ids_collect [where child = "\<lambda>r. fst (snd (snd (snd r)))"])
     (simp_all add: task_entry_def row_task_id_def split: prod.splits)

lemma rating_ids_collect:
  "map view_id (dict_values (dict_collect rating_entry [] rs))
     = first_occurrences (List.map_filter row_rating_id rs)"
  by (rule owned_ids_collect [where child = "\<lambda>r. fst (snd (snd (snd (snd r))))"])
     (simp_all add: rating_entry_def row_rating_id_def split: prod.splits)

lemma comment_ids_collect:
  "map view_id (dict_values (dict_collect comment_entry [] rs))
     = first_occurrences (List.map_filter row_comment_id rs)"
  by (rule owned_ids_collect [where child = "\<lambda>r. fst (snd (snd (snd (snd (snd r)))))"])
     (simp_all add: comment_entry_def row_comment_id_def split: prod.splits)

lemma reaction_ids_collect:
  "map view_id (dict_values (dict_collect reaction_entry [] rs))
     = first_occurrences (List.map_filter row_reaction_id rs)"
  by (rule owned_ids_collect [where child = "\<lambda>r. fst (snd (snd (snd (snd (snd (snd r))))))"])
     (simp_all add: reaction_entry_def row_reaction_id_def split: prod.splits)

lemma view_collections:
  assumes "v \<in> set (construct_user_views rows)"
  shows "map iv_id (uv_items v)
           = first_occurrences (List.map_filter row_item_id (person_rows (uv_id v) rows))"
    and "map view_id (uv_tasks v)
           = first_occurrences (List.map_filter row_task_id (person_rows (uv_id v) rows))"
    and "map view_id (uv_ratings v)
           = first_occurrences (List.map_filter row_rating_id (person_rows (uv_id v) rows))"
    and "map view_id (uv_comments v)
           = first_occurrences (List.map_filter row_comment_id (person_rows (uv_id v) rows))"
    and "map view_id (uv_reactions v)
           = first_occurrences (List.map_filter row_reaction_id (person_rows (uv_id v) rows))"
    and "map qv_id (uv_quests v)
           = first_occurrences (List.map_filter row_quest_id (person_rows (uv_id v) rows))"
proof -
  obtain row rest where pr: "person_rows (uv_id v) rows = row # rest"
    and v: "v = accumulator_view (fold_children (new_accumulator (fst row)) (row # rest))"
    using views_entry [OF assms] by blast
  have uid: "\<And>r. r \<in> set (row # rest) \<Longrightarrow> user_id (fst r) = uv_id v"
    using person_rows_user [of _ "uv_id v" rows] by (simp only: pr)
  have "uv_items v = dict_values (dict_collect item_entry [] (row # rest))"
    by (subst v) (simp add: accumulator_view_def user_view_def fold_items)
  then show "map iv_id (uv_items v)
           = first_occurrences (List.map_filter row_item_id (person_rows (uv_id v) rows))"
    using item_ids_collect [OF uid] by (simp only: pr)
  have "uv_quests v = dict_values (dict_collect quest_entry [] (row # rest))"
    by (subst v) (simp add: accumulator_view_def user_view_def fold_quests)
  then show "map qv_id (uv_quests v)
           = first_occurrences (List.map_filter row_quest_id (person_rows (uv_id v) rows))"
    using quest_ids_collect [OF uid] by (simp only: pr)
  have "uv_tasks v = dict_values (dict_collect task_entry [] (row # rest))"
    by (subst v) (simp add: accumulator_view_def user_view_def fold_tasks)
  then show "map view_id (uv_tasks v)
           = first_occurrences (List.map_filter row_task_id (person_rows (uv_id v) rows))"
    by (simp only: pr task_ids_collect)
  have "uv_ratings v = dict_values (dict_collect rating_entry [] (row # rest))"
    by (subst v) (simp add: accumulator_view_def user_view_def fold_ratings)
  then show "map view_id (uv_ratings v)
           = first_occurrences (List.map_filter row_rating_id (person_rows (uv_id v) rows))"
    by (simp only: pr rating_ids_collect)
  have "uv_comments v = dict_values (dict_collect comment_entry [] (row # rest))"
    by (subst v) (simp add: accumulator_view_def user_view_def fold_comments)
  then show "map view_id (uv_comments v)
           = first_occurrences (List.map_filter row_comment_id (person_rows (uv_id v) rows))"
    by (simp only: pr comment_ids_collect)
  have "uv_reactions v = dict_values (dict_collect reaction_entry [] (row # rest))"
    by (subst v) (simp add: accumulator_view_def user_view_def fold_reactions)
  then show "map view_id (uv_reactions v)
           = first_occurrences (List.map_filter row_reaction_id (person_rows (uv_id v) rows))"
    by (simp only: pr reaction_ids_collect)
qed

lemma filter_one:
  "distinct (map f xs) \<Longrightarrow> x \<in> set (map f xs) \<Longrightarrow> length (filter (\<lambda>e. f e = x) xs) = 1"
proof (induction xs)
  case Nil
  then show ?case by simp
next
  case (Cons a xs)
  show ?case
  proof (cases "f a = x")
    case True
    then have "filter (\<lambda>e. f e = x) xs = []"
      using Cons.prems(1) by (auto simp: filter_empty_conv image_iff)
    then show ?thesis using True by simp
  next
    case False
    then show ?thesis using Cons by auto
  qed
qed

lemma set_map_filter: "set (List.map_filter f xs) = {y. \<exists>x \<in> set xs. f x = Some y}"
  by (induction xs) (auto simp: map_filter_def)

text \<open>
  C4: the views stand in the order in which the user ids first occur in the input, and
  in each view each of the six collections lists its entries in the order in which
  their ids first occur among the rows of that user.
\<close>

theorem construct_user_views_order:
  "map uv_id (construct_user_views rows)
     = first_occurrences (map (\<lambda>row. user_id (fst row)) rows)
   \<and> (\<forall>v \<in> set (construct_user_views rows).
        map iv_id (uv_items v)
          = first_occurrences (List.map_filter row_item_id (person_rows (uv_id v) rows))
      \<and> map view_id (uv_tasks v)
          = first_occurrences (List.map_filter row_task_id (person_rows (uv_id v) rows))
      \<and> map view_id (uv_ratings v)
          = first_occurrences (List.map_filter row_rating_id (person_rows (uv_id v) rows))
      \<and> map view_id (uv_comments v)
          = first_occurrences (List.map_filter row_comment_id (person_rows (uv_id v) rows))
      \<and> map view_id (uv_reactions v)
          = first_occurrences (List.map_filter row_reaction_id (person_rows (uv_id v) rows))
      \<and> map qv_id (uv_quests v)
          = first_occurrences (List.map_filter row_quest_id (person_rows (uv_id v) rows)))"
  using views_ids view_collections by blast

theorem construct_user_views_order_witness:
  "construct_user_views example_batch ! 0 \<in> set (construct_user_views example_batch)
   \<and> map uv_id (construct_user_views example_batch) = [2, 1]
   \<and> first_occurrences (map (\<lambda>row. user_id (fst row)) example_batch) = [2, 1]
   \<and> map iv_id (uv_items (construct_user_views example_batch ! 0)) = [7, 8]
   \<and> first_occurrences (List.map_filter row_item_id
         (person_rows (uv_id (construct_user_views example_batch ! 0)) example_batch)) = [7, 8]
   \<and> map view_id (uv_tasks (construct_user_views example_batch ! 0)) = [31, 32]
   \<and> first_occurrences (List.map_filter row_task_id
         (person_rows (uv_id (construct_user_views example_batch ! 0)) example_batch)) = [31, 32]"
proof -
  have mem: "construct_user_views example_batch ! 0 \<in> set (construct_user_views example_batch)"
    by code_simp
  have ids: "map uv_id (construct_user_views example_batch) = [2, 1]"
    by code_simp
  have its: "map iv_id (uv_items (construct_user_views example_batch ! 0)) = [7, 8]"
    by code_simp
  have tks: "map view_id (uv_tasks (construct_user_views example_batch ! 0)) = [31, 32]"
    by code_simp
  show ?thesis
    using construct_user_views_order [of example_batch] mem ids its tks by metis
qed

text \<open>
  C1: when a row of the input carries a user, a link and an item, the result has exactly
  one view with the id of that user, and every view with that id has exactly one item
  entry with the id of that item, however often the pair recurs in the input.
\<close>

theorem construct_user_views_one_entry:
  assumes "(user, Some l, Some i, task, rating, comment, reaction, ql, q) \<in> set rows"
  shows "length (filter (\<lambda>v. uv_id v = user_id user) (construct_user_views rows)) = 1
         \<and> (\<forall>v \<in> set (construct_user_views rows). uv_id v = user_id user \<longrightarrow>
               length (filter (\<lambda>e. iv_id e = item_id i) (uv_items v)) = 1)"
proof (intro conjI ballI impI)
  let ?row = "(user, Some l, Some i, task, rating, comment, reaction, ql, q)"
  have "user_id user \<in> set (map (\<lambda>row. user_id (fst row)) rows)"
    using assms by force
  then show "length (filter (\<lambda>v. uv_id v = user_id user) (construct_user_views rows)) = 1"
    by (intro filter_one) (simp_all only: views_ids first_occurrences_distinct first_occurrences_set)
next
  fix v assume v: "v \<in> set (construct_user_views rows)" and uid: "uv_id v = user_id user"
  let ?row = "(user, Some l, Some i, task, rating, comment, reaction, ql, q)"
  have "?row \<in> set (person_rows (uv_id v) rows)"
    using assms uid by (simp add: person_rows_def)
  moreover have "row_item_id ?row = Some (item_id i)"
    by (simp add: row_item_id_def)
  ultimately have "item_id i \<in> set (List.map_filter row_item_id (person_rows (uv_id v) rows))"
    unfolding set_map_filter by blast
  then show "length (filter (\<lambda>e. iv_id e = item_id i) (uv_items v)) = 1"
    by (intro filter_one)
       (simp_all only: view_collections(1) [OF v] first_occurrences_distinct first_occurrences_set)
qed

theorem construct_user_views_one_entry_witness:
  "(example_user 2 ''bob'', Some (example_link 2 7 True), Some (example_item 7),
      Some (example_task 32 2), None, None, None, None, None) \<in> set example_batch
   \<and> length (filter (\<lambda>v. uv_id v = 2) (construct_user_views example_batch)) = 1
   \<and> length (filter (\<lambda>e. iv_id e = 7) (uv_items (construct_user_views example_batch ! 0))) = 1"
proof -
  have row: "(example_user 2 ''bob'', Some (example_link 2 7 True), Some (example_item 7),
      Some (example_task 32 2), None, None, None, None, None) \<in> set example_batch"
    by (simp add: example_batch_def)
  have mem: "construct_user_views example_batch ! 0 \<in> set (construct_user_views example_batch)"
    by code_simp
  have uid: "uv_id (construct_user_views example_batch ! 0) = 2"
    by code_simp
  have "user_id (example_user 2 ''bob'') = 2" and "item_id (example_item 7) = 7"
    by (simp_all add: example_user_def example_item_def)
  then show ?thesis
    using construct_user_views_one_entry [OF row] row mem uid by simp
qed

subsection \<open>No view depends on a password\<close>

lemma user_items_password:
  "user_items (map (\<lambda>(user, rest). (set_password f user, rest)) rows) = user_items rows"
  by (induction rows rule: user_items.induct) (auto split: option.splits sum.splits)

lemma user_quests_password:
  "user_quests (set_password f u) (map (\<lambda>(user, rest). (set_password f user, rest)) rows)
     = user_quests u rows"
  by (induction u rows rule: user_quests.induct)
     (auto simp: set_password_def split: option.splits sum.splits)

lemma user_view_password:
  "user_view (set_password f user) its tks rts cms rcs qts = user_view user its tks rts cms rcs qts"
  by (simp add: user_view_def set_password_def)

lemma construct_user_view_Cons:
  "rows = (user, l, i, ql, q) # rest \<Longrightarrow>
   construct_user_view rows
     = (case user_items rows of
          Inl e \<Rightarrow> Inl e
        | Inr its \<Rightarrow>
            (case user_quests user rows of
               Inl e \<Rightarrow> Inl e
             | Inr qts \<Rightarrow>
                 Inr (user_view user its
                        (map model_dump_view (user_tasks user))
                        (map model_dump_view (user_ratings user))
                        (map model_dump_view (user_comments user))
                        (map model_dump_view (user_reactions user))
                        qts)))"
  by hypsubst (simp add: construct_user_view_def)

lemma set_password_fields:
  "user_id (set_password f user) = user_id user"
  "user_tasks (set_password f user) = user_tasks user"
  "user_ratings (set_password f user) = user_ratings user"
  "user_comments (set_password f user) = user_comments user"
  "user_reactions (set_password f user) = user_reactions user"
  by (simp_all add: set_password_def)

lemma construct_user_view_password:
  "construct_user_view (map (\<lambda>(user, rest). (set_password f user, rest)) rows)
     = construct_user_view rows"
proof (cases rows)
  case Nil
  then show ?thesis by (simp add: construct_user_view_def)
next
  case (Cons row rest)
  obtain user l i ql q where row: "row = (user, l, i, ql, q)" by (cases row)
  let ?g = "\<lambda>(user, rest). (set_password f user, rest)"
  have rows: "rows = (user, l, i, ql, q) # rest" by (simp add: Cons row)
  have rows': "map ?g rows = (set_password f user, l, i, ql, q) # map ?g rest"
    by (simp add: rows)
  show ?thesis
    unfolding construct_user_view_Cons [OF rows'] construct_user_view_Cons [OF rows]
      user_items_password user_quests_password set_password_fields user_view_password
    by (rule refl)
qed

lemma add_step_password:
  "add_item (set_password f user) l i (acc\<lparr>acc_user := u'\<rparr>)
     = (add_item user l i acc)\<lparr>acc_user := u'\<rparr>"
  "add_quest (set_password f user) ql q (acc\<lparr>acc_user := u'\<rparr>)
     = (add_quest user ql q acc)\<lparr>acc_user := u'\<rparr>"
  "add_task t (acc\<lparr>acc_user := u'\<rparr>) = (add_task t acc)\<lparr>acc_user := u'\<rparr>"
  "add_rating t (acc\<lparr>acc_user := u'\<rparr>) = (add_rating t acc)\<lparr>acc_user := u'\<rparr>"
  "add_comment t (acc\<lparr>acc_user := u'\<rparr>) = (add_comment t acc)\<lparr>acc_user := u'\<rparr>"
  "add_reaction t (acc\<lparr>acc_user := u'\<rparr>) = (add_reaction t acc)\<lparr>acc_user := u'\<rparr>"
  by (simp_all add: add_item_def add_quest_def add_task_def add_rating_def add_comment_def
        add_reaction_def set_password_def split: option.splits)

lemma add_children_password:
  "add_children (set_password f user, rest) (acc\<lparr>acc_user := u'\<rparr>)
     = (add_children (user, rest) acc)\<lparr>acc_user := u'\<rparr>"
  by (simp add: add_children_def add_step_password split: prod.splits)

lemma add_row_password:
  "add_row (map (hide_password f) users) (set_password f user, rest)
     = map (hide_password f) (add_row users (user, rest))"
proof -
  have keys: "map fst (map (hide_password f) users) = map fst users"
    by (simp add: hide_password_def comp_def)
  have uid: "user_id (set_password f user) = user_id user"
    by (simp add: set_password_def)
  have modify: "\<And>d. dict_modify (user_id user) (add_children (set_password f user, rest))
                   (map (hide_password f) d)
                 = map (hide_password f) (dict_modify (user_id user) (add_children (user, rest)) d)"
    by (auto simp: dict_modify_def hide_password_def add_children_password add_children_user)
  have new: "(user_id user, new_accumulator (set_password f user))
               = hide_password f (user_id user, new_accumulator user)"
    by (simp add: hide_password_def new_accumulator_def)
  show ?thesis
    unfolding add_row_def Let_def dict_contains_def keys fst_conv uid new
    using modify [of users] modify [of "users @ [(user_id user, new_accumulator user)]"]
    by simp
qed

lemma foldl_add_row_password:
  "foldl add_row (map (hide_password f) users) (map (\<lambda>(user, rest). (set_password f user, rest)) rows)
     = map (hide_password f) (foldl add_row users rows)"
proof (induction rows arbitrary: users)
  case Nil
  then show ?case by simp
next
  case (Cons row rows)
  obtain user rest where row: "row = (user, rest)" by (cases row)
  show ?case by (simp add: row add_row_password Cons.IH)
qed

lemma accumulator_view_password:
  "accumulator_view (snd (hide_password f entry)) = accumulator_view (snd entry)"
  by (simp add: accumulator_view_def hide_password_def user_view_password)

lemma construct_user_views_password:
  "construct_user_views (map (\<lambda>(user, rest). (set_password f user, rest)) rows)
     = construct_user_views rows"
  using foldl_add_row_password [of f "[]" rows]
  by (simp add: construct_user_views_def dict_values_def comp_def accumulator_view_password)

text \<open>
  C3: a view has no password field, and no view depends on the stored passwords: with
  the password of every user of the input replaced by any other value, both
  \<open>construct_user_view\<close> and \<open>construct_user_views\<close> return what they return on the
  input itself.
\<close>

theorem views_without_password:
  "construct_user_view (map (\<lambda>(user, rest). (set_password f user, rest)) single_rows)
     = construct_user_view single_rows
   \<and> construct_user_views (map (\<lambda>(user, rest). (set_password g user, rest)) batch_rows)
     = construct_user_views batch_rows"
  using construct_user_view_password construct_user_views_password by blast

subsection \<open>Lookups of one user\<close>

lemma select_user_rows:
  "select_user_items_quests db cond = concat (map (user_rows db) (filter cond (db_users db)))"
  unfolding select_user_items_quests_def user_rows_def [abs_def] by (rule refl)

lemma outer_join_nonempty: "outer_join xs \<noteq> []"
  by (simp add: outer_join_def)

lemma outer_join_None: "(None \<in> set (outer_join xs)) = (xs = [])"
  by (auto simp: outer_join_def)

lemma outer_join_Some: "(Some x \<in> set (outer_join xs)) = (x \<in> set xs)"
  by (auto simp: outer_join_def)

lemma user_rows_nonempty: "user_rows db user \<noteq> []"
proof -
  obtain l where l: "l \<in> set (links_of db user)"
    unfolding links_of_def using outer_join_nonempty by (metis last_in_set)
  obtain i where i: "i \<in> set (items_of db l)"
    unfolding items_of_def using outer_join_nonempty by (metis last_in_set)
  obtain ql where ql: "ql \<in> set (quest_links_of db user)"
    unfolding quest_links_of_def using outer_join_nonempty by (metis last_in_set)
  obtain q where q: "q \<in> set (quests_of db ql)"
    unfolding quests_of_def using outer_join_nonempty by (metis last_in_set)
  have "(user, l, i, ql, q) \<in> set (user_rows db user)"
    using l i ql q by (auto simp: user_rows_def)
  then show ?thesis by auto
qed

lemma select_empty:
  "(select_user_items_quests db cond = []) = (filter cond (db_users db) = [])"
  by (auto simp: select_user_rows user_rows_nonempty filter_empty_conv)

lemma user_rows_joined: "row \<in> set (user_rows db user) \<Longrightarrow> joined_row row"
  by (auto simp: user_rows_def joined_row_def items_of_def quests_of_def outer_join_def
      split: if_splits option.splits)

lemma select_joined: "row \<in> set (select_user_items_quests db cond) \<Longrightarrow> joined_row row"
  by (auto simp: select_user_rows user_rows_joined)

lemma user_items_total:
  "(\<And>row. row \<in> set rows \<Longrightarrow> joined_row row) \<Longrightarrow> \<exists>its. user_items rows = Inr its"
proof (induction rows rule: user_items.induct)
  case 1
  then show ?case by simp
next
  case (2 u l i ql q rows)
  have "joined_row (u, l, i, ql, q)" using "2.prems" by simp
  then have li: "i = None \<or> l \<noteq> None" by (simp add: joined_row_def)
  show ?case
  proof (cases i)
    case None
    then show ?thesis using 2 by simp
  next
    case (Some i')
    then obtain l' where l': "l = Some l'" using li by auto
    have "\<exists>its. user_items rows = Inr its"
      using "2.IH"(2) [OF Some l'] "2.prems" by simp
    then show ?thesis using Some l' by auto
  qed
qed

lemma user_quests_total:
  "(\<And>row. row \<in> set rows \<Longrightarrow> joined_row row) \<Longrightarrow> \<exists>qts. user_quests user rows = Inr qts"
proof (induction user rows rule: user_quests.induct)
  case (1 user)
  then show ?case by simp
next
  case (2 user u l i ql q rows)
  have "joined_row (u, l, i, ql, q)" using "2.prems" by simp
  then have li: "q = None \<or> ql \<noteq> None" by (simp add: joined_row_def)
  show ?case
  proof (cases q)
    case None
    then show ?thesis using 2 by simp
  next
    case (Some q')
    then obtain l' where l': "ql = Some l'" using li by auto
    have "\<exists>qts. user_quests user rows = Inr qts"
      using "2.IH"(2) [OF Some l'] "2.prems" by simp
    then show ?thesis using Some l' by auto
  qed
qed

lemma construct_user_view_total:
  assumes "rows \<noteq> []" and "\<And>row. row \<in> set rows \<Longrightarrow> joined_row row"
  shows "\<exists>v. construct_user_view rows = Inr v"
proof -
  obtain user l i ql q rest where rows: "rows = (user, l, i, ql, q) # rest"
    using assms(1) by (cases rows) auto
  obtain its where its: "user_items rows = Inr its"
    using user_items_total [of rows] assms(2) by blast
  obtain qts where qts: "user_quests user rows = Inr qts"
    using user_quests_total [of rows] assms(2) by blast
  show ?thesis
    unfolding construct_user_view_Cons [OF rows] its qts by simp
qed

lemma construct_user_view_errors:
  "construct_user_view rows = Inl e \<Longrightarrow> e = IndexError \<or> e = AttributeError"
proof -
  have items: "\<And>e. user_items rows = Inl e \<Longrightarrow> e = AttributeError"
    by (induction rows rule: user_items.induct) (auto split: option.splits sum.splits)
  have quests: "\<And>u e. user_quests u rows = Inl e \<Longrightarrow> e = AttributeError"
  proof -
    fix u e show "user_quests u rows = Inl e \<Longrightarrow> e = AttributeError"
      by (induction u rows rule: user_quests.induct) (auto split: option.splits sum.splits)
  qed
  assume "construct_user_view rows = Inl e"
  then show ?thesis using items quests
    by (auto simp: construct_user_view_def split: list.splits prod.splits sum.splits)
qed

lemma select_view_total:
  "select_user_items_quests db cond \<noteq> [] \<Longrightarrow>
   \<exists>v. construct_user_view (select_user_items_quests db cond) = Inr v"
  by (rule construct_user_view_total) (simp_all add: select_joined)

lemma lookup_fails:
  assumes "err \<noteq> IndexError" and "err \<noteq> AttributeError"
  shows "((if select_user_items_quests db cond = [] then Inl err
           else construct_user_view (select_user_items_quests db cond)) = Inl err)
         = (select_user_items_quests db cond = [])"
proof (cases "select_user_items_quests db cond = []")
  case True
  then show ?thesis by simp
next
  case False
  have "construct_user_view (select_user_items_quests db cond) \<noteq> Inl err"
    using construct_user_view_errors assms by blast
  then show ?thesis using False by simp
qed

lemma lookup_returns:
  "(\<exists>v. (if select_user_items_quests db cond = [] then Inl err
          else construct_user_view (select_user_items_quests db cond)) = Inr v)
   = (select_user_items_quests db cond \<noteq> [])"
  using select_view_total by auto

lemma filter_empty_ids: "(filter (\<lambda>x. f x = k) xs = []) = (k \<notin> set (map f xs))"
  by (auto simp: filter_empty_conv)

text \<open>
  C6: each lookup of one user fails with its own not-found error exactly when the
  query finds no row, that is when no user has the id, the username or the email, and
  returns a view otherwise; \<open>get_user_by_username_with_password\<close> fails with
  \<^verbatim>\<open>NoResultFound\<close> of the storage layer exactly when no user has the username.
\<close>

theorem lookups_not_found:
  "(get_user_by_id db uid = Inl (UserNotFoundError uid))
     = (select_user_items_quests db (\<lambda>user. user_id user = uid) = [])
   \<and> (get_user_by_id db uid = Inl (UserNotFoundError uid))
     = (uid \<notin> set (map user_id (db_users db)))
   \<and> (\<exists>v. get_user_by_id db uid = Inr v) = (uid \<in> set (map user_id (db_users db)))
   \<and> (get_user_by_username db name = Inl (UserUsernameNotFoundError name))
     = (select_user_items_quests db (\<lambda>user. user_username user = name) = [])
   \<and> (get_user_by_username db name = Inl (UserUsernameNotFoundError name))
     = (name \<notin> set (map user_username (db_users db)))
   \<and> (\<exists>v. get_user_by_username db name = Inr v)
     = (name \<in> set (map user_username (db_users db)))
   \<and> (get_user_by_email db email = Inl (UserEmailNotFoundError email))
     = (select_user_items_quests db (\<lambda>user. user_email user = email) = [])
   \<and> (get_user_by_email db email = Inl (UserEmailNotFoundError email))
     = (email \<notin> set (map user_email (db_users db)))
   \<and> (\<exists>v. get_user_by_email db email = Inr v) = (email \<in> set (map user_email (db_users db)))
   \<and> (get_user_by_username_with_password db name = Inl NoResultFound)
     = (name \<notin> set (map user_username (db_users db)))"
proof -
  have id1: "(get_user_by_id db uid = Inl (UserNotFoundError uid))
               = (select_user_items_quests db (\<lambda>user. user_id user = uid) = [])"
    unfolding get_user_by_id_def Let_def by (rule lookup_fails) simp_all
  have id2: "(\<exists>v. get_user_by_id db uid = Inr v)
               = (select_user_items_quests db (\<lambda>user. user_id user = uid) \<noteq> [])"
    unfolding get_user_by_id_def Let_def by (rule lookup_returns)
  have name1: "(get_user_by_username db name = Inl (UserUsernameNotFoundError name))
               = (select_user_items_quests db (\<lambda>user. user_username user = name) = [])"
    unfolding get_user_by_username_def Let_def by (rule lookup_fails) simp_all
  have name2: "(\<exists>v. get_user_by_username db name = Inr v)
               = (select_user_items_quests db (\<lambda>user. user_username user = name) \<noteq> [])"
    unfolding get_user_by_username_def Let_def by (rule lookup_returns)
  have email1: "(get_user_by_email db email = Inl (UserEmailNotFoundError email))
               = (select_user_items_quests db (\<lambda>user. user_email user = email) = [])"
    unfolding get_user_by_email_def Let_def by (rule lookup_fails) simp_all
  have email2: "(\<exists>v. get_user_by_email db email = Inr v)
               = (select_user_items_quests db (\<lambda>user. user_email user = email) \<noteq> [])"
    unfolding get_user_by_email_def Let_def by (rule lookup_returns)
  have pw: "(get_user_by_username_with_password db name = Inl NoResultFound)
             = (filter (\<lambda>user. user_username user = name) (db_users db) = [])"
    by (simp add: get_user_by_username_with_password_def result_one_def split: list.splits)
  show ?thesis
    unfolding id1 id2 name1 name2 email1 email2 pw select_empty filter_empty_ids
    by simp
qed

text \<open>
  C2 fails on the code: ann of \<open>example_db\<close> has two items and two quests, the select of
  \<open>get_user_by_id\<close> gives four rows, all with ann as their user, and the view lists
  each item and each quest twice.
\<close>

theorem construct_user_view_repeats_children:
  "length (select_user_items_quests example_db (\<lambda>user. user_id user = 1)) = 4
   \<and> set (map fst (select_user_items_quests example_db (\<lambda>user. user_id user = 1)))
       = {example_user 1 ''ann''}
   \<and> map_sum id (\<lambda>v. (map iv_id (uv_items v), map qv_id (uv_quests v)))
        (construct_user_view (select_user_items_quests example_db (\<lambda>user. user_id user = 1)))
       = Inr ([7, 7, 8, 8], [41, 42, 41, 42])
   \<and> map_sum id (\<lambda>v. (map iv_id (uv_items v), map qv_id (uv_quests v)))
        (get_user_by_id example_db 1)
       = Inr ([7, 7, 8, 8], [41, 42, 41, 42])"
  by code_simp

subsection \<open>Creating a user and changing a password\<close>

lemma result_one_Inr: "result_one rows = Inr x \<Longrightarrow> rows = [x]"
  by (auto simp: result_one_def split: list.splits)

lemma result_first_None: "(result_first rows = None) = (rows = [])"
  by (simp add: result_first_def split: list.splits)

text \<open>
  C8: when the commit of \<open>create_user\<close> violates an integrity constraint and no user
  has the requested email or the requested username, \<open>create_user\<close> raises nothing
  and returns \<^verbatim>\<open>None\<close>, with the database as it was.
\<close>

theorem create_user_returns_none:
  assumes "violates db
             (new_user new_id (get_password_hash (uc_password user_create)) user_create
                (calculate_initial_stats (uc_tribe user_create)))"
    and "uc_email user_create \<notin> set (map user_email (db_users db))"
    and "uc_username user_create \<notin> set (map user_username (db_users db))"
  shows "create_user get_password_hash violates new_id db user_create = (db, Inr None)"
proof -
  have "filter (\<lambda>u. user_email u = uc_email user_create) (db_users db) = []"
    using assms(2) by (simp add: filter_empty_ids)
  moreover have "filter (\<lambda>u. user_username u = uc_username user_create) (db_users db) = []"
    using assms(3) by (simp add: filter_empty_ids)
  ultimately show ?thesis
    using assms(1) by (simp add: create_user_def Let_def result_first_def)
qed

theorem create_user_returns_none_witness:
  "unique_violation example_db
     (new_user 2 (example_hash (uc_password example_create)) example_create
        (calculate_initial_stats (uc_tribe example_create)))
   \<and> uc_email example_create \<notin> set (map user_email (db_users example_db))
   \<and> uc_username example_create \<notin> set (map user_username (db_users example_db))
   \<and> create_user example_hash unique_violation 2 example_db example_create
       = (example_db, Inr None)"
proof -
  have a: "unique_violation example_db
     (new_user 2 (example_hash (uc_password example_create)) example_create
        (calculate_initial_stats (uc_tribe example_create)))"
    by code_simp
  have b: "uc_email example_create \<notin> set (map user_email (db_users example_db))"
    by code_simp
  have c: "uc_username example_create \<notin> set (map user_username (db_users example_db))"
    by code_simp
  show ?thesis
    using create_user_returns_none [where violates = unique_violation and db = example_db
        and new_id = 2 and get_password_hash = example_hash and user_create = example_create]
      a b c
    by simp
qed

text \<open>
  C9: after a successful \<open>update_user_password\<close> the stored password of the user is
  the string that was passed, as it is; after a successful \<open>create_user\<close> the stored
  password of the new user is the hash of the string that was passed.
\<close>

theorem update_user_password_stores_raw:
  "(update_user_password db uid password = (db', Inr v) \<longrightarrow>
      map user_password (filter (\<lambda>user. user_id user = uid) (db_users db')) = [password])
   \<and> (create_user get_password_hash violates new_id db user_create = (db'', Inr (Some user)) \<longrightarrow>
      user_password user = get_password_hash (uc_password user_create)
      \<and> db_users db'' = db_users db @ [user])"
proof (rule conjI; rule impI)
  assume upd: "update_user_password db uid password = (db', Inr v)"
  let ?set = "\<lambda>user. if user_id user = uid then user\<lparr>user_password := password\<rparr> else user"
  obtain db_user where one: "result_one (filter (\<lambda>user. user_id user = uid) (db_users db)) = Inr db_user"
    using upd by (cases "result_one (filter (\<lambda>user. user_id user = uid) (db_users db))")
      (auto simp: update_user_password_def)
  then have rows: "filter (\<lambda>user. user_id user = uid) (db_users db) = [db_user]"
    by (rule result_one_Inr)
  have "db' = db\<lparr>db_users := map ?set (db_users db)\<rparr>"
    using upd one by (simp add: update_user_password_def Let_def)
  then have "filter (\<lambda>user. user_id user = uid) (db_users db')
               = filter (\<lambda>user. user_id user = uid) (map ?set (db_users db))"
    by simp
  also have "\<dots> = map ?set (filter (\<lambda>user. user_id user = uid) (db_users db))"
    by (simp add: filter_map comp_def cong: filter_cong)
  finally show "map user_password (filter (\<lambda>user. user_id user = uid) (db_users db')) = [password]"
    using rows by (auto dest: filter_eq_ConsD)
next
  assume "create_user get_password_hash violates new_id db user_create = (db'', Inr (Some user))"
  then show "user_password user = get_password_hash (uc_password user_create)
      \<and> db_users db'' = db_users db @ [user]"
    by (auto simp: create_user_def Let_def new_user_def split: if_splits)
qed

theorem update_user_password_stores_raw_witness:
  "\<not> isl (snd (update_user_password example_db 1 ''pw''))
   \<and> map user_password
        (filter (\<lambda>user. user_id user = 1)
           (db_users (fst (update_user_password example_db 1 ''pw'')))) = [''pw'']
   \<and> snd (create_user example_hash unique_violation 3 example_db example_create)
       = Inr (Some (new_user 3 ''hash:pw'' example_create (calculate_initial_stats (Some SAHARANS))))
   \<and> user_password
         (new_user 3 ''hash:pw'' example_create (calculate_initial_stats (Some SAHARANS)))
       = example_hash (uc_password example_create)"
proof -
  have ok: "\<not> isl (snd (update_user_password example_db 1 ''pw''))"
    by code_simp
  then obtain v where "snd (update_user_password example_db 1 ''pw'') = Inr v"
    by (cases "snd (update_user_password example_db 1 ''pw'')") auto
  then have upd: "update_user_password example_db 1 ''pw''
                    = (fst (update_user_password example_db 1 ''pw''), Inr v)"
    by (simp add: prod_eq_iff)
  have cr: "snd (create_user example_hash unique_violation 3 example_db example_create)
       = Inr (Some (new_user 3 ''hash:pw'' example_create (calculate_initial_stats (Some SAHARANS))))"
    by code_simp
  then have new: "create_user example_hash unique_violation 3 example_db example_create
       = (fst (create_user example_hash unique_violation 3 example_db example_create),
          Inr (Some (new_user 3 ''hash:pw'' example_create
                 (calculate_initial_stats (Some SAHARANS)))))"
    by (simp add: prod_eq_iff)
  show ?thesis
    using update_user_password_stores_raw
      [where db = example_db and uid = 1 and password = "''pw''" and v = v
        and db' = "fst (update_user_password example_db 1 ''pw'')"
        and get_password_hash = example_hash and violates = unique_violation and new_id = 3
        and user_create = example_create
        and db'' = "fst (create_user example_hash unique_violation 3 example_db example_create)"
        and user = "new_user 3 ''hash:pw'' example_create
                      (calculate_initial_stats (Some SAHARANS))"]
      ok upd new cr
    by blast
qed

subsection \<open>Paging in \<open>get_users\<close>\<close>

lemma first_occurrences_length: "length (first_occurrences xs) \<le> length xs"
  by (induction xs) (auto intro: le_trans [OF length_filter_le] le_SucI)

lemma construct_user_views_length: "length (construct_user_views rows) \<le> length rows"
proof -
  have "length (construct_user_views rows) = length (map uv_id (construct_user_views rows))"
    by simp
  also have "\<dots> \<le> length rows"
    unfolding views_ids using first_occurrences_length [of "map (\<lambda>row. user_id (fst row)) rows"]
    by simp
  finally show ?thesis .
qed

text \<open>
  C10: \<open>get_users\<close> cuts the joined rows, not the users: it builds its views from at
  most \<open>limit\<close> rows, so it returns at most \<open>limit\<close> views. In \<open>example_db\<close> ann has
  the items 7 and 8 and the quests 41 and 42, and so four rows: with limit 1 her view
  has one item and one quest, and with limit 2 the page of two users has her view only.
\<close>

theorem get_users_cuts_rows:
  "get_users db offset limit = construct_user_views (get_users_rows db offset limit)
   \<and> get_users_rows db offset limit
       = take limit (drop offset
           (sort_key (\<lambda>row. user_username (fst row)) (select_user_children db (\<lambda>user. True))))
   \<and> length (get_users_rows db offset limit) \<le> limit
   \<and> length (get_users db offset limit) \<le> limit
   \<and> map user_id (db_users example_db) = [2, 1]
   \<and> map link_item_id (filter (\<lambda>l. link_user_id l = 1) (db_user_item_links example_db)) = [7, 8]
   \<and> map (\<lambda>v. (uv_id v, map iv_id (uv_items v), map qv_id (uv_quests v)))
        (get_users example_db 0 1) = [(1, [7], [41])]
   \<and> map (\<lambda>v. (uv_id v, map iv_id (uv_items v), map qv_id (uv_quests v)))
        (get_users example_db 0 2) = [(1, [7], [41, 42])]
   \<and> map (\<lambda>v. (uv_id v, map iv_id (uv_items v), map qv_id (uv_quests v)))
        (get_users example_db 3 2) = [(1, [8], [42]), (2, [], [])]"
proof -
  have a: "length (get_users_rows db offset limit) \<le> limit"
    by (simp add: get_users_rows_def)
  have b: "length (get_users db offset limit) \<le> limit"
    unfolding get_users_def using construct_user_views_length a by (rule le_trans)
  have c: "map user_id (db_users example_db) = [2, 1]"
    by code_simp
  have d: "map link_item_id (filter (\<lambda>l. link_user_id l = 1) (db_user_item_links example_db)) = [7, 8]"
    by code_simp
  have e: "map (\<lambda>v. (uv_id v, map iv_id (uv_items v), map qv_id (uv_quests v)))
        (get_users example_db 0 1) = [(1, [7], [41])]"
    by code_simp
  have f: "map (\<lambda>v. (uv_id v, map iv_id (uv_items v), map qv_id (uv_quests v)))
        (get_users example_db 0 2) = [(1, [7], [41, 42])]"
    by code_simp
  have g: "map (\<lambda>v. (uv_id v, map iv_id (uv_items v), map qv_id (uv_quests v)))
        (get_users example_db 3 2) = [(1, [8], [42]), (2, [], [])]"
    by code_simp
  show ?thesis
    using a b c d e f g by (simp add: get_users_def get_users_rows_def)
qed

subsection \<open>Equipping an item\<close>

lemma set_equipped_ids:
  "link_user_id (set_equipped uid iid e l) = link_user_id l"
  "link_item_id (set_equipped uid iid e l) = link_item_id l"
  by (simp_all add: set_equipped_def)

lemma outer_join_map: "outer_join (map f xs) = map (map_option f) (outer_join xs)"
  by (simp add: outer_join_def)

lemma links_of_equipped:
  "links_of (db\<lparr>db_user_item_links := map (set_equipped uid iid e) (db_user_item_links db)\<rparr>) user
     = map (map_option (set_equipped uid iid e)) (links_of db user)"
proof -
  have "filter (\<lambda>l. user_id user = link_user_id l)
          (map (set_equipped uid iid e) (db_user_item_links db))
        = map (set_equipped uid iid e)
            (filter (\<lambda>l. user_id user = link_user_id l) (db_user_item_links db))"
    by (simp add: filter_map comp_def set_equipped_ids)
  then show ?thesis by (simp add: links_of_def outer_join_map)
qed

lemma items_of_equipped:
  "items_of (db\<lparr>db_user_item_links := ls\<rparr>) (map_option (set_equipped uid iid e) l)
     = items_of db l"
  by (cases l) (simp_all add: items_of_def set_equipped_ids)

lemma quests_of_equipped:
  "quest_links_of (db\<lparr>db_user_item_links := ls\<rparr>) user = quest_links_of db user"
  "quests_of (db\<lparr>db_user_item_links := ls\<rparr>) ql = quests_of db ql"
  by (simp_all add: quest_links_of_def quests_of_def split: option.splits)

lemma user_rows_equipped:
  "user_rows (db\<lparr>db_user_item_links := map (set_equipped uid iid e) (db_user_item_links db)\<rparr>) user
     = map (relink (set_equipped uid iid e)) (user_rows db user)"
  unfolding user_rows_def links_of_equipped quests_of_equipped
  by (simp add: map_concat comp_def items_of_equipped relink_def)

lemma select_equipped:
  "select_user_items_quests
     (db\<lparr>db_user_item_links := map (set_equipped uid iid e) (db_user_item_links db)\<rparr>) cond
     = map (relink (set_equipped uid iid e)) (select_user_items_quests db cond)"
proof -
  have "user_rows (db\<lparr>db_user_item_links := map (set_equipped uid iid e) (db_user_item_links db)\<rparr>)
          = (\<lambda>user. map (relink (set_equipped uid iid e)) (user_rows db user))"
    by (rule ext) (rule user_rows_equipped)
  then show ?thesis by (simp add: select_user_rows map_concat comp_def)
qed

lemma user_rows_linked: "row \<in> set (user_rows db user) \<Longrightarrow> linked_row (user_id user) row"
  by (auto simp: user_rows_def linked_row_def links_of_def items_of_def outer_join_def
      split: if_splits option.splits)

lemma select_linked:
  "row \<in> set (select_user_items_quests db (\<lambda>user. user_id user = uid)) \<Longrightarrow> linked_row uid row"
  by (auto simp: select_user_rows dest: user_rows_linked)

lemma user_items_equipped:
  "(\<And>row. row \<in> set rows \<Longrightarrow> linked_row uid row) \<Longrightarrow>
   user_items (map (relink (set_equipped uid iid e)) rows)
     = map_sum id (map (equip_entry iid e)) (user_items rows)"
proof (induction rows rule: user_items.induct)
  case 1
  then show ?case by simp
next
  case (2 u l i ql q rows)
  have linked: "linked_row uid (u, l, i, ql, q)" using "2.prems" by simp
  have rest: "\<And>row. row \<in> set rows \<Longrightarrow> linked_row uid row" using "2.prems" by simp
  show ?case
  proof (cases i)
    case None
    then show ?thesis using "2.IH"(1) rest by (simp add: relink_def)
  next
    case (Some i')
    show ?thesis
    proof (cases l)
      case None
      then show ?thesis using Some by (simp add: relink_def)
    next
      case l': (Some l')
      have ids: "link_user_id l' = uid" "item_id i' = link_item_id l'"
        using linked by (simp_all add: linked_row_def Some l')
      have entry: "item_user_view i' (link_equipped (set_equipped uid iid e l'))
                     = equip_entry iid e (item_user_view i' (link_equipped l'))"
        by (simp add: item_user_view_def equip_entry_def set_equipped_def ids)
      show ?thesis
        using "2.IH"(2) [OF Some l'] rest
        by (cases "user_items rows") (simp_all add: relink_def Some l' entry)
    qed
  qed
qed

lemma user_quests_equipped:
  "user_quests user (map (relink f) rows) = user_quests user rows"
  by (induction user rows rule: user_quests.induct)
     (auto simp: relink_def split: option.splits sum.splits)

lemma construct_user_view_equipped:
  assumes "\<And>row. row \<in> set rows \<Longrightarrow> linked_row uid row"
  shows "construct_user_view (map (relink (set_equipped uid iid e)) rows)
           = map_sum id (\<lambda>v. v\<lparr>uv_items := map (equip_entry iid e) (uv_items v)\<rparr>)
               (construct_user_view rows)"
proof (cases rows)
  case Nil
  then show ?thesis by (simp add: construct_user_view_def)
next
  case (Cons row rest)
  obtain user l i ql q where row: "row = (user, l, i, ql, q)" by (cases row)
  have rows: "rows = (user, l, i, ql, q) # rest" by (simp add: Cons row)
  have rows': "map (relink (set_equipped uid iid e)) rows
                 = (user, map_option (set_equipped uid iid e) l, i, ql, q)
                   # map (relink (set_equipped uid iid e)) rest"
    by (simp add: rows relink_def)
  have its: "user_items (map (relink (set_equipped uid iid e)) rows)
               = map_sum id (map (equip_entry iid e)) (user_items rows)"
    using assms by (rule user_items_equipped)
  have qts: "user_quests user (map (relink (set_equipped uid iid e)) rows) = user_quests user rows"
    by (rule user_quests_equipped)
  show ?thesis
    unfolding construct_user_view_Cons [OF rows'] construct_user_view_Cons [OF rows] its qts
    by (cases "user_items rows"; cases "user_quests user rows") (simp_all add: user_view_def)
qed

lemma get_user_by_id_equipped:
  "get_user_by_id
     (db\<lparr>db_user_item_links := map (set_equipped uid iid e) (db_user_item_links db)\<rparr>) uid
     = map_sum id (\<lambda>v. v\<lparr>uv_items := map (equip_entry iid e) (uv_items v)\<rparr>)
         (get_user_by_id db uid)"
  unfolding get_user_by_id_def Let_def select_equipped
  using construct_user_view_equipped [of "select_user_items_quests db (\<lambda>user. user_id user = uid)" uid iid e]
    select_linked [of _ db uid]
  by simp

lemma user_items_member:
  "user_items rows = Inr its \<Longrightarrow> (u, Some l, Some i, ql, q) \<in> set rows \<Longrightarrow>
   item_id i \<in> set (map iv_id its)"
proof (induction rows arbitrary: its rule: user_items.induct)
  case 1
  then show ?case by simp
next
  case (2 u' l' i' ql' q' rows)
  then show ?case
    by (auto simp: item_user_view_def split: option.splits sum.splits)
qed

lemma construct_user_view_items:
  "construct_user_view rows = Inr v \<Longrightarrow> user_items rows = Inr (uv_items v)"
  by (auto simp: construct_user_view_def user_view_def split: list.splits prod.splits sum.splits)

lemma select_member:
  assumes "user \<in> set (db_users db)" and "user_id user = uid"
    and "l \<in> set (db_user_item_links db)" and "link_user_id l = uid"
    and "i \<in> set (db_items db)" and "item_id i = link_item_id l"
  shows "\<exists>ql q. (user, Some l, Some i, ql, q)
           \<in> set (select_user_items_quests db (\<lambda>user. user_id user = uid))"
proof -
  have l: "Some l \<in> set (links_of db user)"
    using assms by (simp add: links_of_def outer_join_Some)
  have i: "Some i \<in> set (items_of db (Some l))"
    using assms by (simp add: items_of_def outer_join_Some)
  obtain ql where ql: "ql \<in> set (quest_links_of db user)"
    unfolding quest_links_of_def using outer_join_nonempty by (metis last_in_set)
  obtain q where q: "q \<in> set (quests_of db ql)"
    unfolding quests_of_def using outer_join_nonempty by (metis last_in_set)
  have "(user, Some l, Some i, ql, q) \<in> set (user_rows db user)"
    unfolding user_rows_def using l i ql q by auto
  then have "(user, Some l, Some i, ql, q)
           \<in> set (select_user_items_quests db (\<lambda>user. user_id user = uid))"
    using assms(1,2) by (auto simp: select_user_rows)
  then show ?thesis by blast
qed

lemma equip_item_to_user_result:
  assumes "equip_item_to_user db uid iid equipped = (db', Inr v)"
  shows "\<exists>user l. filter (\<lambda>user. user_id user = uid) (db_users db) = [user]
           \<and> filter (\<lambda>l. link_user_id l = uid \<and> link_item_id l = iid) (db_user_item_links db) = [l]
           \<and> db' = db\<lparr>db_user_item_links :=
                        map (set_equipped uid iid equipped) (db_user_item_links db)\<rparr>
           \<and> get_user_by_id db' uid = Inr v"
proof -
  obtain user where user: "result_one (filter (\<lambda>user. user_id user = uid) (db_users db)) = Inr user"
    using assms
    by (cases "result_one (filter (\<lambda>user. user_id user = uid) (db_users db))")
       (auto simp: equip_item_to_user_def)
  obtain l where l: "result_one (filter (\<lambda>l. link_user_id l = uid \<and> link_item_id l = iid)
                        (db_user_item_links db)) = Inr l"
    using assms user
    by (cases "result_one (filter (\<lambda>l. link_user_id l = uid \<and> link_item_id l = iid)
                        (db_user_item_links db))")
       (auto simp: equip_item_to_user_def)
  have f: "(\<lambda>l. if link_user_id l = uid \<and> link_item_id l = iid
                then l\<lparr>link_equipped := equipped\<rparr> else l) = set_equipped uid iid equipped"
    by (rule ext) (simp add: set_equipped_def)
  have "db' = db\<lparr>db_user_item_links :=
                        map (set_equipped uid iid equipped) (db_user_item_links db)\<rparr>
        \<and> get_user_by_id db' uid = Inr v"
    using assms user l by (auto simp: equip_item_to_user_def Let_def f)
  then show ?thesis
    using result_one_Inr [OF user] result_one_Inr [OF l] by blast
qed

lemma equip_entry_id: "iv_id (equip_entry iid e x) = iv_id x"
  by (simp add: equip_entry_def)

lemma filter_other_links:
  "filter (\<lambda>l. \<not> (link_user_id l = uid \<and> link_item_id l = iid))
     (map (set_equipped uid iid e) ls)
   = filter (\<lambda>l. \<not> (link_user_id l = uid \<and> link_item_id l = iid)) ls"
  by (induction ls) (auto simp: set_equipped_def)

text \<open>
  C7: \<open>equip_item_to_user\<close> fails with \<^verbatim>\<open>ItemLinkToUserNotFoundError\<close>, and leaves
  the database as it is, when one user has the id and no link joins the user and the
  item. When it returns a view, every item entry of the view with the item's id has
  the requested flag, and there is one when the item exists; the view is the view that
  \<open>get_user_by_id\<close> gave before the call with the flag of these entries set, so no
  other entry has changed; and in the database only the flag of the link of the user
  and the item is written, every other link is as it was.
\<close>

theorem equip_item_to_user_effect:
  "(filter (\<lambda>user. user_id user = uid) (db_users db) = [user]
      \<and> filter (\<lambda>l. link_user_id l = uid \<and> link_item_id l = iid) (db_user_item_links db) = []
     \<longrightarrow> equip_item_to_user db uid iid equipped = (db, Inl (ItemLinkToUserNotFoundError iid)))
   \<and> (equip_item_to_user db uid iid equipped = (db', Inr v) \<longrightarrow>
        (\<forall>x \<in> set (uv_items v). iv_id x = iid \<longrightarrow> iv_equipped x = equipped)
      \<and> (iid \<in> set (map item_id (db_items db)) \<longrightarrow> iid \<in> set (map iv_id (uv_items v)))
      \<and> (\<exists>v0. get_user_by_id db uid = Inr v0
              \<and> v = v0\<lparr>uv_items := map (equip_entry iid equipped) (uv_items v0)\<rparr>)
      \<and> db' = db\<lparr>db_user_item_links :=
                   map (set_equipped uid iid equipped) (db_user_item_links db)\<rparr>
      \<and> filter (\<lambda>l. \<not> (link_user_id l = uid \<and> link_item_id l = iid)) (db_user_item_links db')
          = filter (\<lambda>l. \<not> (link_user_id l = uid \<and> link_item_id l = iid))
              (db_user_item_links db))"
proof (rule conjI; rule impI)
  assume "filter (\<lambda>user. user_id user = uid) (db_users db) = [user]
      \<and> filter (\<lambda>l. link_user_id l = uid \<and> link_item_id l = iid) (db_user_item_links db) = []"
  then show "equip_item_to_user db uid iid equipped = (db, Inl (ItemLinkToUserNotFoundError iid))"
    by (simp add: equip_item_to_user_def result_one_def)
next
  assume eq: "equip_item_to_user db uid iid equipped = (db', Inr v)"
  obtain user l where user: "filter (\<lambda>user. user_id user = uid) (db_users db) = [user]"
    and l: "filter (\<lambda>l. link_user_id l = uid \<and> link_item_id l = iid) (db_user_item_links db) = [l]"
    and db': "db' = db\<lparr>db_user_item_links :=
                        map (set_equipped uid iid equipped) (db_user_item_links db)\<rparr>"
    and v: "get_user_by_id db' uid = Inr v"
    using equip_item_to_user_result [OF eq] by blast
  have "map_sum id (\<lambda>v. v\<lparr>uv_items := map (equip_entry iid equipped) (uv_items v)\<rparr>)
          (get_user_by_id db uid) = Inr v"
    using v unfolding db' get_user_by_id_equipped .
  then obtain v0 where v0: "get_user_by_id db uid = Inr v0"
    and vv0: "v = v0\<lparr>uv_items := map (equip_entry iid equipped) (uv_items v0)\<rparr>"
    by (cases "get_user_by_id db uid") auto
  have items: "uv_items v = map (equip_entry iid equipped) (uv_items v0)"
    by (simp add: vv0)
  have flags: "\<forall>x \<in> set (uv_items v). iv_id x = iid \<longrightarrow> iv_equipped x = equipped"
  proof (intro ballI impI)
    fix x assume x: "x \<in> set (uv_items v)" and xid: "iv_id x = iid"
    from x obtain y where y: "x = equip_entry iid equipped y"
      unfolding items by (auto simp: image_iff)
    have "iv_id y = iid" using xid by (simp add: y equip_entry_id)
    then show "iv_equipped x = equipped" by (simp add: y equip_entry_def)
  qed
  have member: "iid \<in> set (map item_id (db_items db)) \<longrightarrow> iid \<in> set (map iv_id (uv_items v))"
  proof
    assume "iid \<in> set (map item_id (db_items db))"
    then obtain i where i: "i \<in> set (db_items db)" "item_id i = iid" by auto
    have "user \<in> set (filter (\<lambda>user. user_id user = uid) (db_users db))"
      by (simp only: user list.set_intros)
    then have u: "user \<in> set (db_users db)" "user_id user = uid" by simp_all
    have "l \<in> set (filter (\<lambda>l. link_user_id l = uid \<and> link_item_id l = iid)
                     (db_user_item_links db))"
      by (simp only: l list.set_intros)
    then have ll: "l \<in> set (db_user_item_links db)" "link_user_id l = uid" "link_item_id l = iid"
      by simp_all
    obtain ql q where row: "(user, Some l, Some i, ql, q)
           \<in> set (select_user_items_quests db (\<lambda>user. user_id user = uid))"
      using select_member [OF u ll(1,2) i(1)] i(2) ll(3) by auto
    have "construct_user_view (select_user_items_quests db (\<lambda>user. user_id user = uid)) = Inr v0"
      using v0 by (auto simp: get_user_by_id_def Let_def split: if_splits)
    then have "user_items (select_user_items_quests db (\<lambda>user. user_id user = uid))
                 = Inr (uv_items v0)"
      by (rule construct_user_view_items)
    then have "item_id i \<in> set (map iv_id (uv_items v0))"
      using row by (rule user_items_member)
    then show "iid \<in> set (map iv_id (uv_items v))"
      by (simp add: items i(2) comp_def equip_entry_id)
  qed
  have links': "db_user_item_links db'
                  = map (set_equipped uid iid equipped) (db_user_item_links db)"
    by (simp add: db')
  have others: "filter (\<lambda>l. \<not> (link_user_id l = uid \<and> link_item_id l = iid))
                  (db_user_item_links db')
          = filter (\<lambda>l. \<not> (link_user_id l = uid \<and> link_item_id l = iid))
              (db_user_item_links db)"
    unfolding links' by (rule filter_other_links)
  show "(\<forall>x \<in> set (uv_items v). iv_id x = iid \<longrightarrow> iv_equipped x = equipped)
      \<and> (iid \<in> set (map item_id (db_items db)) \<longrightarrow> iid \<in> set (map iv_id (uv_items v)))
      \<and> (\<exists>v0. get_user_by_id db uid = Inr v0
              \<and> v = v0\<lparr>uv_items := map (equip_entry iid equipped) (uv_items v0)\<rparr>)
      \<and> db' = db\<lparr>db_user_item_links :=
                   map (set_equipped uid iid equipped) (db_user_item_links db)\<rparr>
      \<and> filter (\<lambda>l. \<not> (link_user_id l = uid \<and> link_item_id l = iid)) (db_user_item_links db')
          = filter (\<lambda>l. \<not> (link_user_id l = uid \<and> link_item_id l = iid))
              (db_user_item_links db)"
  proof (intro conjI)
    show "\<exists>v0. get_user_by_id db uid = Inr v0
              \<and> v = v0\<lparr>uv_items := map (equip_entry iid equipped) (uv_items v0)\<rparr>"
      using v0 vv0 by (intro exI [of _ v0] conjI)
  qed (fact flags member db' others)+
qed

theorem equip_item_to_user_effect_witness:
  "filter (\<lambda>user. user_id user = 1) (db_users example_db) = [example_user 1 ''ann'']
   \<and> filter (\<lambda>l. link_user_id l = 1 \<and> link_item_id l = 9) (db_user_item_links example_db) = []
   \<and> equip_item_to_user example_db 1 9 True = (example_db, Inl (ItemLinkToUserNotFoundError 9))
   \<and> (\<exists>v. snd (equip_item_to_user example_db 1 7 True) = Inr v
          \<and> map (\<lambda>x. (iv_id x, iv_equipped x)) (uv_items v)
              = [(7, True), (7, True), (8, False), (8, False)]
          \<and> 7 \<in> set (map iv_id (uv_items v)))
   \<and> map link_equipped
        (filter (\<lambda>l. \<not> (link_user_id l = 1 \<and> link_item_id l = 7))
           (db_user_item_links (fst (equip_item_to_user example_db 1 7 True)))) = [False]"
proof -
  have user: "filter (\<lambda>user. user_id user = 1) (db_users example_db) = [example_user 1 ''ann'']"
    by code_simp
  have none: "filter (\<lambda>l. link_user_id l = 1 \<and> link_item_id l = 9)
                (db_user_item_links example_db) = []"
    by code_simp
  have fails: "equip_item_to_user example_db 1 9 True
                 = (example_db, Inl (ItemLinkToUserNotFoundError 9))"
    using equip_item_to_user_effect
      [where db = example_db and uid = 1 and iid = 9 and user = "example_user 1 ''ann''"
        and equipped = True]
      user none
    by blast
  have "map_sum id (\<lambda>v. map (\<lambda>x. (iv_id x, iv_equipped x)) (uv_items v))
          (snd (equip_item_to_user example_db 1 7 True))
        = Inr [(7, True), (7, True), (8, False), (8, False)]"
    by code_simp
  then obtain v where v: "snd (equip_item_to_user example_db 1 7 True) = Inr v"
    and flags: "map (\<lambda>x. (iv_id x, iv_equipped x)) (uv_items v)
                  = [(7, True), (7, True), (8, False), (8, False)]"
    by (cases "snd (equip_item_to_user example_db 1 7 True)") auto
  have eq: "equip_item_to_user example_db 1 7 True
              = (fst (equip_item_to_user example_db 1 7 True), Inr v)"
    using v by (simp add: prod_eq_iff)
  have item: "7 \<in> set (map item_id (db_items example_db))"
    by code_simp
  have other: "map link_equipped
        (filter (\<lambda>l. \<not> (link_user_id l = 1 \<and> link_item_id l = 7))
           (db_user_item_links example_db)) = [False]"
    by code_simp
  have "7 \<in> set (map iv_id (uv_items v))
        \<and> filter (\<lambda>l. \<not> (link_user_id l = 1 \<and> link_item_id l = 7))
            (db_user_item_links (fst (equip_item_to_user example_db 1 7 True)))
          = filter (\<lambda>l. \<not> (link_user_id l = 1 \<and> link_item_id l = 7))
              (db_user_item_links example_db)"
    using equip_item_to_user_effect
      [where db = example_db and uid = 1 and iid = 7 and equipped = True and v = v
        and db' = "fst (equip_item_to_user example_db 1 7 True)"]
      eq item
    by blast
  then show ?thesis using user none fails v flags other by auto
qed

end
